theory Spec2Isabelle
  imports Main "HOL-Library.AList"
begin

section \<open>Python values and errors\<close>

text \<open>
  The streaming adapters work on values decoded by Python's \<^verbatim>\<open>json.loads\<close>.
  A decoded value is \<^verbatim>\<open>None\<close>, a bool, an int, a str, a list or a dict with
  string keys (kept as an association list in insertion order; the decoder
  produces distinct keys). Numbers with a fraction or an exponent are outside this model.
\<close>

datatype json =
    JNull
  | JBool bool
  | JInt int
  | JStr string
  | JArr "json list"
  | JObj "(string \<times> json) list"

text \<open>The messages of the \<^verbatim>\<open>ValueError\<close>s raised by the adapters.\<close>

datatype value_error =
    CantParseResultString   \<comment> \<open>\<^verbatim>\<open>Can't parse result string from vLLM: ...\<close>\<close>
  | DontKnowHowToParseDelta \<comment> \<open>\<^verbatim>\<open>Don't know how to parse event delta: ...\<close>\<close>
  | EndedWithoutDONE        \<comment> \<open>\<^verbatim>\<open>vLLM event stream ended without [DONE] message.\<close>\<close>
  | InvalidFinishReason     \<comment> \<open>\<^verbatim>\<open>Invalid finish reason: ...\<close>\<close>

datatype error =
    ValueError value_error
  | NotImplementedError
  | JSONDecodeError
  | KeyError
  | IndexError
  | TypeError
  | UnboundLocalError
  | NameError

text \<open>\<^verbatim>\<open>needle in haystack\<close> on two strings: the substring test.\<close>

fun str_contains :: "string \<Rightarrow> string \<Rightarrow> bool" where
  "str_contains needle [] = (needle = [])"
| "str_contains needle (c # cs) =
     (take (length needle) (c # cs) = needle \<or> str_contains needle cs)"

text \<open>\<^verbatim>\<open>key in obj\<close> for a string key: membership in a dict's keys, in a list's
  elements, the substring test on a str, and a \<^verbatim>\<open>TypeError\<close> on anything else.\<close>

fun py_in :: "string \<Rightarrow> json \<Rightarrow> error + bool" where
  "py_in k (JObj kvs) = Inr (k \<in> set (map fst kvs))"
| "py_in k (JArr xs) = Inr (JStr k \<in> set xs)"
| "py_in k (JStr s) = Inr (str_contains k s)"
| "py_in k _ = Inl TypeError"

text \<open>\<^verbatim>\<open>obj[key]\<close> for a string key: only a dict accepts it.\<close>

fun getitem_str :: "json \<Rightarrow> string \<Rightarrow> error + json" where
  "getitem_str (JObj kvs) k = (case map_of kvs k of None \<Rightarrow> Inl KeyError | Some v \<Rightarrow> Inr v)"
| "getitem_str _ k = Inl TypeError"

text \<open>\<^verbatim>\<open>obj[0]\<close>: the first element of a list, the first character of a str; a dict with
  string keys has no key \<^verbatim>\<open>0\<close>.\<close>

fun getitem_0 :: "json \<Rightarrow> error + json" where
  "getitem_0 (JArr []) = Inl IndexError"
| "getitem_0 (JArr (x # xs)) = Inr x"
| "getitem_0 (JStr []) = Inl IndexError"
| "getitem_0 (JStr (c # cs)) = Inr (JStr [c])"
| "getitem_0 (JObj kvs) = Inl KeyError"
| "getitem_0 _ = Inl TypeError"

text \<open>The values a \<^verbatim>\<open>for\<close> loop over a decoded value visits.\<close>

fun py_iter :: "json \<Rightarrow> error + json list" where
  "py_iter (JArr xs) = Inr xs"
| "py_iter (JObj kvs) = Inr (map (JStr \<circ> fst) kvs)"
| "py_iter (JStr s) = Inr (map (\<lambda>c. JStr [c]) s)"
| "py_iter _ = Inl TypeError"

text \<open>A decoded value used as a dict key: lists and dicts are unhashable, and
  \<^verbatim>\<open>True\<close>/\<^verbatim>\<open>False\<close> are the same keys as \<^verbatim>\<open>1\<close>/\<^verbatim>\<open>0\<close>.\<close>

fun py_key :: "json \<Rightarrow> error + json" where
  "py_key (JArr xs) = Inl TypeError"
| "py_key (JObj kvs) = Inl TypeError"
| "py_key (JBool b) = Inr (JInt (if b then 1 else 0))"
| "py_key v = Inr v"

section \<open>Canonical events\<close>

datatype StopReason = end_of_turn | end_of_message | out_of_tokens

datatype ChatCompletionResponseEventType = start | progress | complete

text \<open>
  \<^verbatim>\<open>ChatCompletionResponseEvent\<close>, with the type of the delta left open because the
  adapters were written against different versions of it. The \<^verbatim>\<open>logprobs\<close> field is
  never set to anything but \<^verbatim>\<open>None\<close> by the code below and is left out.
\<close>

record 'd ChatCompletionResponseEvent =
  event_type :: ChatCompletionResponseEventType
  delta :: 'd
  stop_reason :: "StopReason option"

text \<open>What an (async) generator did: the values it yielded, in order, and how it ended.\<close>

datatype outcome = Returned | Raised error

section \<open>Stop-reason resolvers\<close>

text \<open>\<^verbatim>\<open>_convert_finish_reason\<close> of the inline vLLM adapter, applied to the decoded
  \<^verbatim>\<open>finish_reason\<close> field.\<close>

fun convert_finish_reason :: "json \<Rightarrow> StopReason option" where
  "convert_finish_reason finish_reason =
     (if finish_reason = JNull then None
      else if finish_reason = JStr ''stop'' then Some end_of_turn
      else Some out_of_tokens)"

text \<open>\<^verbatim>\<open>_map_finish_reason_to_stop_reason\<close> of the Groq adapter.\<close>

fun map_finish_reason_to_stop_reason :: "string \<Rightarrow> error + StopReason" where
  "map_finish_reason_to_stop_reason finish_reason =
     (if finish_reason = ''stop'' then Inr end_of_turn
      else if finish_reason = ''length'' then Inr end_of_message
      else if finish_reason = ''tool_calls'' then Inl NotImplementedError
      else Inl (ValueError InvalidFinishReason))"

section \<open>The inline vLLM adapter: tool-call accumulator\<close>

text \<open>Sequencing of steps that may raise: the first error ends the computation.\<close>

definition seq :: "error + 'a \<Rightarrow> ('a \<Rightarrow> error + 'b) \<Rightarrow> error + 'b" where
  "seq m f = (case m of Inl e \<Rightarrow> Inl e | Inr x \<Rightarrow> f x)"

text \<open>
  One entry of \<^verbatim>\<open>index_to_tool_call\<close>: a dict that only ever holds the keys
  \<^verbatim>\<open>call_id\<close>, \<^verbatim>\<open>tool_name\<close>, \<^verbatim>\<open>arguments_str\<close> and \<^verbatim>\<open>arguments\<close>;
  \<open>None\<close> is an absent key.
\<close>

record tool_call_record =
  call_id :: "json option"
  tool_name :: "json option"
  arguments_str :: "string option"
  arguments :: "json option"

definition empty_tool_call :: tool_call_record where
  "empty_tool_call = \<lparr>call_id = None, tool_name = None, arguments_str = None, arguments = None\<rparr>"

text \<open>\<^verbatim>\<open>index_to_tool_call\<close>: a dict in insertion order.\<close>

type_synonym index_map = "(json \<times> tool_call_record) list"

text \<open>\<^verbatim>\<open>if "id" in tc: tool_call["call_id"] = tc["id"]\<close>\<close>

definition set_call_id :: "json \<Rightarrow> tool_call_record \<Rightarrow> error + tool_call_record" where
  "set_call_id tc tool_call =
     seq (py_in ''id'' tc) (\<lambda>b.
       if b then seq (getitem_str tc ''id'') (\<lambda>v. Inr (tool_call\<lparr>call_id := Some v\<rparr>))
       else Inr tool_call)"

text \<open>\<^verbatim>\<open>if "name" in tc["function"]: tool_call["tool_name"] = tc["function"]["name"]\<close>\<close>

definition set_tool_name :: "json \<Rightarrow> tool_call_record \<Rightarrow> error + tool_call_record" where
  "set_tool_name func tool_call =
     seq (py_in ''name'' func) (\<lambda>b.
       if b then seq (getitem_str func ''name'') (\<lambda>v. Inr (tool_call\<lparr>tool_name := Some v\<rparr>))
       else Inr tool_call)"

text \<open>\<^verbatim>\<open>s += v\<close> on a str \<open>s\<close>.\<close>

definition str_iadd :: "string \<Rightarrow> json \<Rightarrow> error + string" where
  "str_iadd s v = (case v of JStr t \<Rightarrow> Inr (s @ t) | _ \<Rightarrow> Inl TypeError)"

text \<open>
  \<^verbatim>\<open>
  if "arguments" in tc["function"]:
      if "arguments_str" not in tool_call:
          tool_call["arguments_str"] = ""
      tool_call["arguments_str"] += tc["function"]["arguments"]
  \<close>
\<close>

definition add_arguments :: "json \<Rightarrow> tool_call_record \<Rightarrow> error + tool_call_record" where
  "add_arguments func tool_call =
     seq (py_in ''arguments'' func) (\<lambda>b.
       if b then
         (let cur = (case arguments_str tool_call of None \<Rightarrow> [] | Some s \<Rightarrow> s) in
          seq (getitem_str func ''arguments'') (\<lambda>a.
          seq (str_iadd cur a) (\<lambda>s. Inr (tool_call\<lparr>arguments_str := Some s\<rparr>))))
       else Inr tool_call)"

text \<open>The body of \<^verbatim>\<open>for tc in delta_record["tool_calls"]\<close>: one fragment is merged into
  the entry of its index, which is created at the end of the dict on first sight.\<close>

definition observe :: "index_map \<Rightarrow> json \<Rightarrow> error + index_map" where
  "observe index_to_tool_call tc =
     seq (getitem_str tc ''index'') (\<lambda>index.
     seq (py_key index) (\<lambda>key.
       let tool_call = (case map_of index_to_tool_call key of
                          None \<Rightarrow> empty_tool_call | Some r \<Rightarrow> r) in
       seq (set_call_id tc tool_call) (\<lambda>r1.
       seq (py_in ''function'' tc) (\<lambda>b.
         if b then
           seq (getitem_str tc ''function'') (\<lambda>func.
           seq (set_tool_name func r1) (\<lambda>r2.
           seq (add_arguments func r2) (\<lambda>r3.
             Inr (AList.update key r3 index_to_tool_call))))
         else Inr (AList.update key r1 index_to_tool_call)))))"

fun observe_all :: "index_map \<Rightarrow> json list \<Rightarrow> error + index_map" where
  "observe_all index_to_tool_call [] = Inr index_to_tool_call"
| "observe_all index_to_tool_call (tc # tcs) =
     seq (observe index_to_tool_call tc) (\<lambda>m. observe_all m tcs)"

section \<open>The inline vLLM adapter: stream conversion\<close>

text \<open>
  The deltas the adapter builds: \<^verbatim>\<open>TextDelta(text=...)\<close> and
  \<^verbatim>\<open>ToolCallDelta(content=..., parse_status=...)\<close>. The event classes are declared
  outside these sources; a constructor is taken to keep its arguments as they are passed,
  the content of a tool-call delta being the buffered dict as it is at that moment.
\<close>

datatype vllm_delta =
    TextDelta json
  | ToolCallDelta tool_call_record string

type_synonym vllm_event = "vllm_delta ChatCompletionResponseEvent"

text \<open>
  The loop under \<^verbatim>\<open>if first_choice["finish_reason"] == "tool_calls"\<close>: every buffered
  call, in insertion order, has its argument string decoded and is yielded. The decoder
  \<open>json_loads\<close> is Python's \<^verbatim>\<open>json.loads\<close>; \<open>None\<close> is its \<^verbatim>\<open>JSONDecodeError\<close>.
  The result is the events yielded and either the error raised or the updated dict.
\<close>

fun output_tool_calls ::
  "(string \<Rightarrow> json option) \<Rightarrow> StopReason option \<Rightarrow> index_map
     \<Rightarrow> vllm_event list \<times> (error + index_map)" where
  "output_tool_calls json_loads csr [] = ([], Inr [])"
| "output_tool_calls json_loads csr ((k, tool_call_record) # rest) =
     (case arguments_str tool_call_record of
        None \<Rightarrow> ([], Inl KeyError)
      | Some s \<Rightarrow>
          (case json_loads s of
             None \<Rightarrow> ([], Inl JSONDecodeError)
           | Some a \<Rightarrow>
               (let r = tool_call_record\<lparr>arguments := Some a, arguments_str := None\<rparr>;
                    ev = \<lparr>event_type = progress, delta = ToolCallDelta r ''succeeded'',
                          stop_reason = csr\<rparr>
                in case output_tool_calls json_loads csr rest of
                     (evs, res) \<Rightarrow>
                       (ev # evs,
                        case res of Inl e \<Rightarrow> Inl e | Inr rest' \<Rightarrow> Inr ((k, r) # rest')))))"

text \<open>The \<^verbatim>\<open>if "content" in delta_record ... elif "tool_calls" in delta_record ... else\<close>
  statement.\<close>

definition convert_delta ::
  "index_map \<Rightarrow> StopReason option \<Rightarrow> json \<Rightarrow> vllm_event list \<times> (error + index_map)" where
  "convert_delta m csr delta_record =
     (case py_in ''content'' delta_record of
        Inl e \<Rightarrow> ([], Inl e)
      | Inr True \<Rightarrow>
          (case getitem_str delta_record ''content'' of
             Inl e \<Rightarrow> ([], Inl e)
           | Inr c \<Rightarrow>
               ([\<lparr>event_type = progress, delta = TextDelta c, stop_reason = csr\<rparr>], Inr m))
      | Inr False \<Rightarrow>
          (case py_in ''tool_calls'' delta_record of
             Inl e \<Rightarrow> ([], Inl e)
           | Inr True \<Rightarrow>
               ([], seq (getitem_str delta_record ''tool_calls'') (\<lambda>tcs.
                    seq (py_iter tcs) (observe_all m)))
           | Inr False \<Rightarrow> ([], Inl (ValueError DontKnowHowToParseDelta))))"

text \<open>The local variables that live across iterations; \<open>converted_stop_reason\<close> is
  unbound (\<open>None\<close>) until the first record has been decoded.\<close>

record vllm_state =
  index_to_tool_call :: index_map
  converted_stop_reason :: "StopReason option option"

text \<open>The loop body for a chunk that is not \<^verbatim>\<open>[DONE]\<close>.\<close>

definition convert_record ::
  "(string \<Rightarrow> json option) \<Rightarrow> vllm_state \<Rightarrow> string
     \<Rightarrow> vllm_event list \<times> (error + vllm_state)" where
  "convert_record json_loads st data_str =
     (case json_loads data_str of
        None \<Rightarrow> ([], Inl JSONDecodeError)
      | Some parsed_chunk \<Rightarrow>
     (case seq (getitem_str parsed_chunk ''choices'') getitem_0 of
        Inl e \<Rightarrow> ([], Inl e)
      | Inr first_choice \<Rightarrow>
     (case getitem_str first_choice ''finish_reason'' of
        Inl e \<Rightarrow> ([], Inl e)
      | Inr finish_reason \<Rightarrow>
     (let csr = convert_finish_reason finish_reason in
      case getitem_str first_choice ''delta'' of
        Inl e \<Rightarrow> ([], Inl e)
      | Inr delta_record \<Rightarrow>
     (case convert_delta (index_to_tool_call st) csr delta_record of
        (evs, Inl e) \<Rightarrow> (evs, Inl e)
      | (evs, Inr m) \<Rightarrow>
          if finish_reason = JStr ''tool_calls'' then
            (case output_tool_calls json_loads csr m of
               (evs', res) \<Rightarrow>
                 (evs @ evs',
                  case res of
                    Inl e \<Rightarrow> Inl e
                  | Inr m' \<Rightarrow>
                      Inr \<lparr>index_to_tool_call = m', converted_stop_reason = Some csr\<rparr>))
          else
            (evs, Inr \<lparr>index_to_tool_call = m, converted_stop_reason = Some csr\<rparr>))))))"

definition startswith :: "string \<Rightarrow> string \<Rightarrow> bool" where
  "startswith s p = (take (length p) s = p)"

definition endswith :: "string \<Rightarrow> string \<Rightarrow> bool" where
  "endswith s q = (length q \<le> length s \<and> drop (length s - length q) s = q)"

definition prefix_str :: string where
  "prefix_str = ''data: ''"

definition suffix_str :: string where
  "suffix_str = [CHR 0x0A, CHR 0x0A]"

text \<open>\<^verbatim>\<open>chunk_str[len(_prefix) : -len(_suffix)]\<close>\<close>

definition data_str_of :: "string \<Rightarrow> string" where
  "data_str_of chunk_str =
     drop (length prefix_str) (take (length chunk_str - length suffix_str) chunk_str)"

text \<open>The \<^verbatim>\<open>async for chunk_str in vllm_result\<close> loop and the statement after it.\<close>

fun stream_loop ::
  "(string \<Rightarrow> json option) \<Rightarrow> vllm_state \<Rightarrow> string list \<Rightarrow> vllm_event list \<times> outcome" where
  "stream_loop json_loads st [] = ([], Raised (ValueError EndedWithoutDONE))"
| "stream_loop json_loads st (chunk_str # rest) =
     (if \<not> startswith chunk_str prefix_str \<or> \<not> endswith chunk_str suffix_str
      then ([], Raised (ValueError CantParseResultString))
      else if data_str_of chunk_str = ''[DONE]'' then
        (case converted_stop_reason st of
           None \<Rightarrow> ([], Raised UnboundLocalError)
         | Some csr \<Rightarrow>
             ([\<lparr>event_type = complete, delta = TextDelta (JStr []), stop_reason = csr\<rparr>],
              Returned))
      else
        (case convert_record json_loads st (data_str_of chunk_str) of
           (evs, Inl e) \<Rightarrow> (evs, Raised e)
         | (evs, Inr st') \<Rightarrow>
             (case stream_loop json_loads st' rest of
                (evs', out) \<Rightarrow> (evs @ evs', out))))"

text \<open>\<^verbatim>\<open>_convert_streaming_results\<close>: the start event, then the loop.\<close>

definition convert_streaming_results ::
  "(string \<Rightarrow> json option) \<Rightarrow> string list \<Rightarrow> vllm_event list \<times> outcome" where
  "convert_streaming_results json_loads vllm_result =
     (case stream_loop json_loads
             \<lparr>index_to_tool_call = [], converted_stop_reason = None\<rparr> vllm_result of
        (evs, out) \<Rightarrow>
          (\<lparr>event_type = start, delta = TextDelta (JStr []), stop_reason = None\<rparr> # evs,
           out))"

section \<open>The Groq adapter: stream conversion\<close>

text \<open>What the adapter reads of a \<^verbatim>\<open>ChatCompletionChunk\<close>: of each choice its
  \<^verbatim>\<open>finish_reason\<close> and its \<^verbatim>\<open>delta.content\<close>, both optional strings.\<close>

record groq_choice =
  finish_reason :: "string option"
  delta_content :: "string option"

record ChatCompletionChunk =
  choices :: "groq_choice list"

type_synonym groq_event = "string ChatCompletionResponseEvent"

text \<open>
  The loop \<^verbatim>\<open>for chunk in stream\<close> and the final \<^verbatim>\<open>yield\<close> of
  \<^verbatim>\<open>convert_chat_completion_response_stream\<close>. \<open>first\<close> says that
  \<^verbatim>\<open>_event_type_generator\<close> has not been advanced yet; \<open>stop_reason\<close> is the local
  variable of that name, unbound (\<open>None\<close>) until a chunk carries a finish reason.
\<close>

fun groq_loop ::
  "bool \<Rightarrow> StopReason option \<Rightarrow> ChatCompletionChunk list \<Rightarrow> groq_event list \<times> outcome" where
  "groq_loop first stop_reason_var [] =
     (case stop_reason_var of
        None \<Rightarrow> ([], Raised UnboundLocalError)
      | Some s \<Rightarrow>
          ([\<lparr>event_type = complete, delta = [], stop_reason = Some s\<rparr>], Returned))"
| "groq_loop first stop_reason_var (chunk # rest) =
     (case choices chunk of
        [] \<Rightarrow> ([], Raised IndexError)
      | choice # _ \<Rightarrow>
          (case (case finish_reason choice of
                   None \<Rightarrow> Inr stop_reason_var
                 | Some fr \<Rightarrow>
                     if fr = [] then Inr stop_reason_var
                     else seq (map_finish_reason_to_stop_reason fr) (\<lambda>s. Inr (Some s))) of
             Inl e \<Rightarrow> ([], Raised e)
           | Inr stop_reason_var' \<Rightarrow>
               (let ev = \<lparr>event_type = (if first then start else progress),
                          delta = (case delta_content choice of None \<Rightarrow> [] | Some c \<Rightarrow> c),
                          stop_reason = None\<rparr>
                in case groq_loop False stop_reason_var' rest of
                     (evs, out) \<Rightarrow> (ev # evs, out))))"

definition convert_chat_completion_response_stream ::
  "ChatCompletionChunk list \<Rightarrow> groq_event list \<times> outcome" where
  "convert_chat_completion_response_stream stream = groq_loop True None stream"

section \<open>The meta-reference implementation: \<^verbatim>\<open>ModelInferenceImpl.chat_completion\<close>\<close>

datatype ToolCallParseStatus = started | in_progress | failure | success

text \<open>\<^verbatim>\<open>ToolCallDelta.content\<close> is a str or a \<^verbatim>\<open>ToolCall\<close>; the type of tool calls
  belongs to the message decoder and is a parameter.\<close>

datatype 'tc mr_delta =
    Text string
  | ToolDelta "string + 'tc" ToolCallParseStatus

text \<open>What the generator yields: a \<^verbatim>\<open>ChatCompletionResponseStreamChunk\<close> holding an event.\<close>

datatype 'tc mr_item =
    StreamChunk "'tc mr_delta ChatCompletionResponseEvent"

record 'l token_result =
  text_s :: string
  token :: int
  logprob :: 'l

record ('c, 'tc) message =
  content :: 'c
  tool_calls :: "'tc list"

text \<open>The two fields of the request that the loop reads: \<^verbatim>\<open>request.stream\<close> and the
  truth value of \<^verbatim>\<open>request.logprobs\<close>.\<close>

record request =
  stream :: bool
  want_logprobs :: bool

record 'l mr_state =
  tokens :: "int list"
  logprobs :: "'l list"
  stop_reason_var :: "StopReason option"
  buffer :: string
  ipython :: bool

definition python_tag :: string where
  "python_tag = ''<|python_tag|>''"

text \<open>The loop \<^verbatim>\<open>for token_result in self.generator.chat_completion(...)\<close>.\<close>

fun token_loop ::
  "request \<Rightarrow> 'l mr_state \<Rightarrow> 'l token_result list
     \<Rightarrow> 'tc mr_item list \<times> 'l mr_state" where
  "token_loop req st [] = ([], st)"
| "token_loop req st (token_result # rest) =
     (let st1 = st\<lparr>buffer := buffer st @ text_s token_result,
                   tokens := tokens st @ [token token_result]\<rparr> in
      if \<not> ipython st1 \<and> startswith (buffer st1) python_tag then
        (let ev = StreamChunk \<lparr>event_type = progress, delta = ToolDelta (Inl []) started,
                               stop_reason = None\<rparr>;
             st2 = st1\<lparr>ipython := True,
                       buffer := drop (length python_tag) (buffer st1)\<rparr>
         in case token_loop req st2 rest of (evs, st') \<Rightarrow> (ev # evs, st'))
      else if \<not> stream req then
        token_loop req
          (if want_logprobs req then st1\<lparr>logprobs := logprobs st1 @ [logprob token_result]\<rparr>
           else st1)
          rest
      else
        (let st2 = (if text_s token_result = ''<|eot_id|>''
                    then st1\<lparr>stop_reason_var := Some end_of_turn\<rparr>
                    else if text_s token_result = ''<|eom_id|>''
                    then st1\<lparr>stop_reason_var := Some end_of_message\<rparr>
                    else st1);
             txt = (if text_s token_result = ''<|eot_id|>'' \<or> text_s token_result = ''<|eom_id|>''
                    then [] else text_s token_result);
             d = (if ipython st2 then ToolDelta (Inl txt) in_progress else Text txt);
             ev = StreamChunk \<lparr>event_type = progress, delta = d,
                               stop_reason = stop_reason_var st2\<rparr>
         in case token_loop req st2 rest of (evs, st') \<Rightarrow> (ev # evs, st')))"

text \<open>
  \<^verbatim>\<open>chat_completion\<close>. \<open>token_results\<close> is what the model generator produces and
  \<open>decode_assistant_message\<close> is the formatter's decoder; both are outside this file's
  source and are parameters. The result is what the generator yields and how it ends.
  When the request is not streamed, the last statement builds a
  \<^verbatim>\<open>ChatCompletionResponse\<close>, a name that the module neither imports nor defines: the
  generator raises \<^verbatim>\<open>NameError\<close> there, before the arguments of the call are evaluated.
\<close>

definition chat_completion ::
  "(int list \<Rightarrow> StopReason \<Rightarrow> ('c, 'tc) message) \<Rightarrow> request \<Rightarrow> 'l token_result list
     \<Rightarrow> 'tc mr_item list \<times> outcome" where
  "chat_completion decode_assistant_message req token_results =
     (case token_loop req
             \<lparr>tokens = [], logprobs = [], stop_reason_var = None, buffer = [], ipython = False\<rparr>
             token_results of
        (evs, st) \<Rightarrow>
          (let stop = (case stop_reason_var st of None \<Rightarrow> out_of_tokens | Some s \<Rightarrow> s);
               msg = decode_assistant_message (tokens st) stop;
               yielded = StreamChunk \<lparr>event_type = start, delta = Text [], stop_reason = None\<rparr> # evs
           in if stream req then
                (yielded @
                 (if ipython st \<and> \<not> (length (tool_calls msg) > 0)
                  then [StreamChunk \<lparr>event_type = progress, delta = ToolDelta (Inl []) failure,
                                     stop_reason = Some stop\<rparr>]
                  else []) @
                 map (\<lambda>tool_call.
                        StreamChunk \<lparr>event_type = progress,
                                     delta = ToolDelta (Inr tool_call) success,
                                     stop_reason = Some stop\<rparr>)
                     (tool_calls msg) @
                 [StreamChunk \<lparr>event_type = complete, delta = Text [], stop_reason = Some stop\<rparr>],
                 Returned)
              else (yielded, Raised NameError)))"

section \<open>Telemetry: \<^verbatim>\<open>Telemetry.query_spans\<close>\<close>

text \<open>
  A \<^verbatim>\<open>SpanWithChildren\<close>. Attribute values are of any type \<open>'v\<close>; \<open>None\<close> as a
  value is Python's \<^verbatim>\<open>None\<close>; the attributes dict itself is optional. The time stamps
  and the status are not read by the query and are left out.
\<close>

datatype 'v SpanWithChildren =
  SpanWithChildren
    (span_id: string)
    (trace_id: string)
    (parent_span_id: "string option")
    (name: string)
    (attributes: "(string \<times> 'v option) list option")
    (children: "'v SpanWithChildren list")

record Trace =
  trace_trace_id :: string
  root_span_id :: string

text \<open>A result row: a dict from column name to string, in insertion order.\<close>

type_synonym row = "(string \<times> string) list"

text \<open>
  \<^verbatim>\<open>span.attributes and all(attr in span.attributes and span.attributes[attr] is not None
      for attr in attributes_to_return)\<close>: an absent or empty dict is false.
\<close>

definition has_attributes :: "'v SpanWithChildren \<Rightarrow> string list \<Rightarrow> bool" where
  "has_attributes span attributes_to_return =
     (case attributes span of
        None \<Rightarrow> False
      | Some a \<Rightarrow>
          a \<noteq> [] \<and>
          list_all (\<lambda>attr. case map_of a attr of
                             None \<Rightarrow> False
                           | Some v \<Rightarrow> v \<noteq> None)
                   attributes_to_return)"

text \<open>\<^verbatim>\<open>for attr in attributes_to_return: row[attr] = str(span.attributes[attr])\<close>; \<open>py_str\<close>
  is \<^verbatim>\<open>str\<close> on attribute values, and \<^verbatim>\<open>str(None)\<close> is \<^verbatim>\<open>'None'\<close>.\<close>

fun fill_row ::
  "('v \<Rightarrow> string) \<Rightarrow> (string \<times> 'v option) list option \<Rightarrow> string list \<Rightarrow> row \<Rightarrow> error + row" where
  "fill_row py_str a [] row = Inr row"
| "fill_row py_str a (attr # rest) row =
     (case a of
        None \<Rightarrow> Inl TypeError
      | Some d \<Rightarrow>
          (case map_of d attr of
             None \<Rightarrow> Inl KeyError
           | Some None \<Rightarrow> fill_row py_str a rest (AList.update attr ''None'' row)
           | Some (Some v) \<Rightarrow> fill_row py_str a rest (AList.update attr (py_str v) row)))"

text \<open>The nested function \<^verbatim>\<open>extract_spans\<close>, together with its loop over the children.\<close>

fun extract_spans ::
    "('v \<Rightarrow> string) \<Rightarrow> Trace \<Rightarrow> string list \<Rightarrow> 'v SpanWithChildren \<Rightarrow> error + row list"
  and extend_children ::
    "('v \<Rightarrow> string) \<Rightarrow> Trace \<Rightarrow> string list \<Rightarrow> 'v SpanWithChildren list \<Rightarrow> row list
       \<Rightarrow> error + row list" where
  "extract_spans py_str trace attributes_to_return (SpanWithChildren sid tid par nm a cs) =
     (let span = SpanWithChildren sid tid par nm a cs in
      seq (if has_attributes span attributes_to_return then
             seq (fill_row py_str a attributes_to_return
                    [(''trace_id'', root_span_id trace), (''span_id'', sid), (''step_name'', nm)])
                 (\<lambda>row. Inr [row])
           else Inr [])
          (\<lambda>rows. extend_children py_str trace attributes_to_return cs rows))"
| "extend_children py_str trace attributes_to_return [] rows = Inr rows"
| "extend_children py_str trace attributes_to_return (child # cs) rows =
     seq (extract_spans py_str trace attributes_to_return child)
         (\<lambda>r. extend_children py_str trace attributes_to_return cs (rows @ r))"

text \<open>
  \<^verbatim>\<open>query_spans\<close>. The trace store's \<^verbatim>\<open>query_traces\<close> and \<^verbatim>\<open>get_span_tree\<close> are
  declared by the protocol without a body; they are parameters.
\<close>

fun query_spans_loop ::
  "('v \<Rightarrow> string) \<Rightarrow> (string \<Rightarrow> string list \<Rightarrow> int option \<Rightarrow> 'v SpanWithChildren)
     \<Rightarrow> string list \<Rightarrow> int option \<Rightarrow> Trace list \<Rightarrow> row list \<Rightarrow> error + row list" where
  "query_spans_loop py_str get_span_tree attributes_to_return max_depth [] rows = Inr rows"
| "query_spans_loop py_str get_span_tree attributes_to_return max_depth (trace # rest) rows =
     (let span_tree = get_span_tree (root_span_id trace) attributes_to_return max_depth in
      seq (extract_spans py_str trace attributes_to_return span_tree)
          (\<lambda>r. query_spans_loop py_str get_span_tree attributes_to_return max_depth rest
                  (rows @ r)))"

definition query_spans ::
  "('v \<Rightarrow> string) \<Rightarrow> ('f \<Rightarrow> Trace list)
     \<Rightarrow> (string \<Rightarrow> string list \<Rightarrow> int option \<Rightarrow> 'v SpanWithChildren)
     \<Rightarrow> 'f \<Rightarrow> string list \<Rightarrow> int option \<Rightarrow> error + row list" where
  "query_spans py_str query_traces get_span_tree attribute_filters attributes_to_return max_depth =
     query_spans_loop py_str get_span_tree attributes_to_return max_depth
       (query_traces attribute_filters) []"

section \<open>Reading tool-call fragments\<close>

text \<open>
  What a fragment \<^verbatim>\<open>{index, id?, function: {name?, arguments?}}\<close> carries, read off the
  decoded value: the dict key its index stands for, its id, its function name and its piece
  of the argument string.
\<close>

definition addresses :: "json \<Rightarrow> json \<Rightarrow> bool" where
  "addresses key tc =
     (case tc of
        JObj kvs \<Rightarrow> (case map_of kvs ''index'' of None \<Rightarrow> False | Some i \<Rightarrow> py_key i = Inr key)
      | _ \<Rightarrow> False)"

definition fragment_function :: "json \<Rightarrow> (string \<times> json) list" where
  "fragment_function tc =
     (case tc of
        JObj kvs \<Rightarrow> (case map_of kvs ''function'' of Some (JObj f) \<Rightarrow> f | _ \<Rightarrow> [])
      | _ \<Rightarrow> [])"

definition fragment_id :: "json \<Rightarrow> json option" where
  "fragment_id tc = (case tc of JObj kvs \<Rightarrow> map_of kvs ''id'' | _ \<Rightarrow> None)"

definition fragment_name :: "json \<Rightarrow> json option" where
  "fragment_name tc = map_of (fragment_function tc) ''name''"

definition fragment_arguments :: "json \<Rightarrow> string option" where
  "fragment_arguments tc =
     (case map_of (fragment_function tc) ''arguments'' of Some (JStr s) \<Rightarrow> Some s | _ \<Rightarrow> None)"

text \<open>A fragment whose \<^verbatim>\<open>function\<close>, if present, is a dict whose \<^verbatim>\<open>arguments\<close>, if
  present, is a str.\<close>

definition well_formed_fragment :: "json \<Rightarrow> bool" where
  "well_formed_fragment tc =
     (case tc of
        JObj kvs \<Rightarrow>
          (case map_of kvs ''function'' of
             None \<Rightarrow> True
           | Some (JObj f) \<Rightarrow>
               (case map_of f ''arguments'' of None \<Rightarrow> True | Some (JStr s) \<Rightarrow> True | _ \<Rightarrow> False)
           | _ \<Rightarrow> False)
      | _ \<Rightarrow> False)"

text \<open>The last value present in a list of optional values, or the default.\<close>

fun last_some :: "'a option list \<Rightarrow> 'a option \<Rightarrow> 'a option" where
  "last_some [] d = d"
| "last_some (x # xs) d = last_some xs (case x of None \<Rightarrow> d | Some v \<Rightarrow> Some v)"

definition fragment_text :: "json \<Rightarrow> string" where
  "fragment_text tc = (case fragment_arguments tc of None \<Rightarrow> [] | Some s \<Rightarrow> s)"

text \<open>The record \<open>r\<close> after the fragments \<open>tcs\<close> have been merged into it.\<close>

definition merged :: "tool_call_record \<Rightarrow> json list \<Rightarrow> tool_call_record" where
  "merged r tcs =
     r\<lparr>call_id := last_some (map fragment_id tcs) (call_id r),
       tool_name := last_some (map fragment_name tcs) (tool_name r),
       arguments_str :=
        (if arguments_str r = None \<and> list_all (\<lambda>tc. fragment_arguments tc = None) tcs then None
         else Some ((case arguments_str r of None \<Rightarrow> [] | Some s \<Rightarrow> s) @
                    concat (map fragment_text tcs)))\<rparr>"

section \<open>Streams of the vLLM adapter used in the statements\<close>

text \<open>The terminal marker as it arrives from vLLM: \<^verbatim>\<open>data: [DONE]\<close> and two newlines.\<close>

definition done_chunk :: string where
  "done_chunk = prefix_str @ ''[DONE]'' @ suffix_str"

text \<open>A chunk whose payload is \<open>data_str\<close>.\<close>

definition chunk_of :: "string \<Rightarrow> string" where
  "chunk_of data_str = prefix_str @ data_str @ suffix_str"

text \<open>
  A plain-text chunk: it has the prefix and the suffix, is not the terminal marker, decodes
  to a record whose first choice has a \<^verbatim>\<open>finish_reason\<close> and a \<^verbatim>\<open>delta\<close> dict with a
  \<^verbatim>\<open>content\<close> key. The result is that content and that finish reason.
\<close>

definition text_chunk :: "(string \<Rightarrow> json option) \<Rightarrow> string \<Rightarrow> (json \<times> json) option" where
  "text_chunk json_loads chunk_str =
     (if startswith chunk_str prefix_str \<and> endswith chunk_str suffix_str \<and>
         data_str_of chunk_str \<noteq> ''[DONE]''
      then
        (case json_loads (data_str_of chunk_str) of
           None \<Rightarrow> None
         | Some parsed_chunk \<Rightarrow>
        (case seq (getitem_str parsed_chunk ''choices'') getitem_0 of
           Inl e \<Rightarrow> None
         | Inr first_choice \<Rightarrow>
        (case getitem_str first_choice ''finish_reason'' of
           Inl e \<Rightarrow> None
         | Inr fr \<Rightarrow>
        (case getitem_str first_choice ''delta'' of
           Inr (JObj kvs) \<Rightarrow>
             (case map_of kvs ''content'' of None \<Rightarrow> None | Some c \<Rightarrow> Some (c, fr))
         | _ \<Rightarrow> None))))
      else None)"

text \<open>The progress event of a plain-text chunk.\<close>

definition text_event :: "json \<times> json \<Rightarrow> vllm_event" where
  "text_event cf =
     \<lparr>event_type = progress, delta = TextDelta (fst cf),
      stop_reason = convert_finish_reason (snd cf)\<rparr>"

text \<open>A buffered call whose argument string is present and decodes.\<close>

definition decodes :: "(string \<Rightarrow> json option) \<Rightarrow> json \<times> tool_call_record \<Rightarrow> bool" where
  "decodes json_loads kr =
     (case arguments_str (snd kr) of None \<Rightarrow> False | Some s \<Rightarrow> json_loads s \<noteq> None)"

text \<open>
  Three records as vLLM sends them, and a decoder that agrees with \<^verbatim>\<open>json.loads\<close> on
  them and on the argument string \<^verbatim>\<open>{liquid\<close>, which is not JSON. It is used only to
  run the adapter on concrete streams.
\<close>

definition hello_record :: string where
  \<open>hello_record = ''{"choices":[{"delta":{"content":"Hello"},"finish_reason":null}]}''\<close>

definition world_record :: string where
  \<open>world_record = ''{"choices":[{"delta":{"content":" world"},"finish_reason":"stop"}]}''\<close>

definition tool_record :: string where
  \<open>tool_record = ''{"choices":[{"delta":{"tool_calls":[{"index":0,"id":"c1","function":{"name":"get_boiling_point","arguments":"{liquid"}}]},"finish_reason":"tool_calls"}]}''\<close>

definition sample_json_loads :: "string \<Rightarrow> json option" where
  "sample_json_loads s =
     (if s = hello_record then
        Some (JObj [(''choices'', JArr [JObj [(''delta'', JObj [(''content'', JStr ''Hello'')]),
                                              (''finish_reason'', JNull)]])])
      else if s = world_record then
        Some (JObj [(''choices'', JArr [JObj [(''delta'', JObj [(''content'', JStr '' world'')]),
                                              (''finish_reason'', JStr ''stop'')]])])
      else if s = tool_record then
        Some (JObj [(''choices'', JArr [JObj
          [(''delta'', JObj [(''tool_calls'', JArr [JObj
              [(''index'', JInt 0), (''id'', JStr ''c1''),
               (''function'', JObj [(''name'', JStr ''get_boiling_point''),
                                    (''arguments'', JStr ''{liquid'')])]])]),
           (''finish_reason'', JStr ''tool_calls'')]])])
      else None)"

section \<open>Streams of the Groq adapter and of the model generator used in the statements\<close>

text \<open>A chunk whose first choice carries one of the finish reasons that the Groq resolver
  maps.\<close>

definition carries_finish_reason :: "ChatCompletionChunk \<Rightarrow> bool" where
  "carries_finish_reason chunk =
     (case choices chunk of
        [] \<Rightarrow> False
      | choice # _ \<Rightarrow> finish_reason choice = Some ''stop'' \<or> finish_reason choice = Some ''length'')"

text \<open>A chunk that has a first choice, whose finish reason is absent, empty or mapped by
  the resolver.\<close>

definition convertible :: "ChatCompletionChunk \<Rightarrow> bool" where
  "convertible chunk =
     (case choices chunk of
        [] \<Rightarrow> False
      | choice # _ \<Rightarrow> finish_reason choice \<in> {None, Some [], Some ''stop'', Some ''length''})"

text \<open>The two tokens that signal the end of a turn or of a message.\<close>

definition stop_token :: "'l token_result \<Rightarrow> bool" where
  "stop_token t = (text_s t = ''<|eot_id|>'' \<or> text_s t = ''<|eom_id|>'')"


section \<open>Span trees and rows used in the statements\<close>

text \<open>The spans of a tree, parent before children, children in order.\<close>

fun preorder :: "'v SpanWithChildren \<Rightarrow> 'v SpanWithChildren list" where
  "preorder (SpanWithChildren sid tid par nm a cs) =
     SpanWithChildren sid tid par nm a cs # concat (map preorder cs)"

text \<open>The three columns every row starts with.\<close>

definition base_row :: "Trace \<Rightarrow> 'v SpanWithChildren \<Rightarrow> row" where
  "base_row trace span =
     [(''trace_id'', root_span_id trace), (''span_id'', span_id span), (''step_name'', name span)]"

text \<open>The row that \<^verbatim>\<open>extract_spans\<close> builds for a span: the three columns, then the loop
  over the requested attributes.\<close>

definition span_row :: "('v \<Rightarrow> string) \<Rightarrow> Trace \<Rightarrow> string list \<Rightarrow> 'v SpanWithChildren \<Rightarrow> row" where
  "span_row py_str trace attributes_to_return span =
     (case fill_row py_str (attributes span) attributes_to_return (base_row trace span) of
        Inl e \<Rightarrow> []
      | Inr row \<Rightarrow> row)"

text \<open>What a span itself adds to the result: its row if the test holds, else nothing.\<close>

definition own_rows ::
  "('v \<Rightarrow> string) \<Rightarrow> Trace \<Rightarrow> string list \<Rightarrow> 'v SpanWithChildren \<Rightarrow> row list" where
  "own_rows py_str trace attributes_to_return span =
     (if has_attributes span attributes_to_return
      then [span_row py_str trace attributes_to_return span] else [])"

text \<open>\<^verbatim>\<open>str(span.attributes[attr])\<close> for an attribute that is present.\<close>

definition attribute_str :: "('v \<Rightarrow> string) \<Rightarrow> (string \<times> 'v option) list \<Rightarrow> string \<Rightarrow> string" where
  "attribute_str py_str d attr =
     (case map_of d attr of Some (Some v) \<Rightarrow> py_str v | _ \<Rightarrow> ''None'')"

text \<open>
  The test in the words of the specification: the attributes map of the span contains all
  of the requested attributes with non-null values. It holds of every span when nothing is
  requested.
\<close>

definition all_attributes_present :: "'v SpanWithChildren \<Rightarrow> string list \<Rightarrow> bool" where
  "all_attributes_present span attributes_to_return =
     list_all (\<lambda>attr. case attributes span of
                        None \<Rightarrow> False
                      | Some d \<Rightarrow> (case map_of d attr of Some (Some v) \<Rightarrow> True | _ \<Rightarrow> False))
              attributes_to_return"

text \<open>A trace whose root span id differs from its trace id, and a tree of two spans: the
  root has an \<^verbatim>\<open>output\<close> attribute, its child an \<^verbatim>\<open>input\<close> attribute.\<close>

definition sample_trace :: Trace where
  "sample_trace = \<lparr>trace_trace_id = ''t1'', root_span_id = ''s1''\<rparr>"

definition sample_child :: "string SpanWithChildren" where
  "sample_child =
     SpanWithChildren ''s2'' ''t1'' (Some ''s1'') ''child'' (Some [(''input'', Some ''i'')]) []"

definition sample_tree :: "string SpanWithChildren" where
  "sample_tree =
     SpanWithChildren ''s1'' ''t1'' None ''root'' (Some [(''output'', Some ''o'')])
       [sample_child]"

section \<open>Streams of tool-call fragments used in the statements\<close>










text \<open>A second trace with its own tree, and a trace store that returns the tree of the
  span it is asked for.\<close>

definition sample_trace2 :: Trace where
  "sample_trace2 = \<lparr>trace_trace_id = ''t2'', root_span_id = ''r2''\<rparr>"

definition sample_tree2 :: "string SpanWithChildren" where
  "sample_tree2 =
     SpanWithChildren ''r2'' ''t2'' None ''other'' (Some [(''input'', Some ''j'')]) []"

definition sample_get_span_tree ::
  "string \<Rightarrow> string list \<Rightarrow> int option \<Rightarrow> string SpanWithChildren" where
  "sample_get_span_tree root_id attributes_to_return max_depth =
     (if root_id = ''s1'' then sample_tree else sample_tree2)"


section \<open>Stop-reason resolution\<close>

text \<open>
  C3, as stated, fails on the vLLM resolver: a finish reason that is neither absent nor
  \<^verbatim>\<open>"stop"\<close>, here \<^verbatim>\<open>"content_filter"\<close>, is not rejected but mapped to
  \<open>out_of_tokens\<close>.
\<close>

theorem convert_finish_reason_guesses:
  "convert_finish_reason (JStr ''content_filter'') = Some out_of_tokens"
  by simp

text \<open>
  C3, amended: the Groq resolver raises for every finish reason other than \<^verbatim>\<open>"stop"\<close>
  and \<^verbatim>\<open>"length"\<close> (\<^verbatim>\<open>NotImplementedError\<close> for \<^verbatim>\<open>"tool_calls"\<close>, a
  \<^verbatim>\<open>ValueError\<close> for any other string) and so never maps an unlisted string to a stop
  reason; the vLLM resolver has a catch-all branch and maps every string other than
  \<^verbatim>\<open>"stop"\<close> to \<open>out_of_tokens\<close>.
\<close>

theorem unlisted_finish_reason:
  "(fr \<notin> {''stop'', ''length'', ''tool_calls''} \<longrightarrow>
      map_finish_reason_to_stop_reason fr = Inl (ValueError InvalidFinishReason)) \<and>
   map_finish_reason_to_stop_reason ''tool_calls'' = Inl NotImplementedError \<and>
   (fr \<noteq> ''stop'' \<longrightarrow> convert_finish_reason (JStr fr) = Some out_of_tokens)"
  by simp

theorem unlisted_finish_reason_witness:
  "''content_filter'' \<notin> {''stop'', ''length'', ''tool_calls''} \<and>
   map_finish_reason_to_stop_reason ''content_filter'' = Inl (ValueError InvalidFinishReason) \<and>
   convert_finish_reason (JStr ''content_filter'') = Some out_of_tokens"
  using unlisted_finish_reason [of "''content_filter''"] by simp

text \<open>
  C4: both resolvers map \<^verbatim>\<open>"stop"\<close> to \<open>end_of_turn\<close>, and the vLLM resolver maps
  \<^verbatim>\<open>"length"\<close> to \<open>out_of_tokens\<close>; the Groq resolver, whose docstring reads
  \<^verbatim>\<open>length -> maximum number of tokens specified in the request was reached\<close>, returns
  \<open>end_of_message\<close> for it.
\<close>

theorem groq_length_is_end_of_message:
  "map_finish_reason_to_stop_reason ''length'' = Inr end_of_message \<and>
   map_finish_reason_to_stop_reason ''length'' \<noteq> Inr out_of_tokens \<and>
   map_finish_reason_to_stop_reason ''stop'' = Inr end_of_turn \<and>
   convert_finish_reason (JStr ''stop'') = Some end_of_turn \<and>
   convert_finish_reason (JStr ''length'') = Some out_of_tokens"
  by simp

section \<open>The tool-call accumulator\<close>

lemma arguments_str_update_same:
  "arguments_str r = v \<Longrightarrow> r\<lparr>arguments_str := v\<rparr> = r"
  by (cases r) simp


lemma py_in_JObj: "py_in k (JObj kvs) = Inr (map_of kvs k \<noteq> None)"
  by (simp add: dom_map_of_conv_image_fst[symmetric] domIff)

lemma set_call_id_JObj:
  "set_call_id (JObj kvs) r =
     Inr (r\<lparr>call_id := (case map_of kvs ''id'' of None \<Rightarrow> call_id r | Some v \<Rightarrow> Some v)\<rparr>)"
  by (simp add: set_call_id_def seq_def py_in_JObj del: py_in.simps split: option.splits)

lemma set_tool_name_JObj:
  "set_tool_name (JObj f) r =
     Inr (r\<lparr>tool_name := (case map_of f ''name'' of None \<Rightarrow> tool_name r | Some v \<Rightarrow> Some v)\<rparr>)"
  by (simp add: set_tool_name_def seq_def py_in_JObj del: py_in.simps split: option.splits)

lemma add_arguments_absent:
  "map_of f ''arguments'' = None \<Longrightarrow> add_arguments (JObj f) r = Inr r"
  by (simp add: add_arguments_def seq_def py_in_JObj del: py_in.simps)

lemma add_arguments_str:
  "map_of f ''arguments'' = Some (JStr s) \<Longrightarrow>
   add_arguments (JObj f) r =
     Inr (r\<lparr>arguments_str := Some ((case arguments_str r of None \<Rightarrow> [] | Some t \<Rightarrow> t) @ s)\<rparr>)"
  by (simp add: add_arguments_def seq_def py_in_JObj str_iadd_def del: py_in.simps)

lemma observe_no_function:
  assumes "map_of kvs ''index'' = Some i" "py_key i = Inr key" "map_of kvs ''function'' = None"
  shows "observe m (JObj kvs) =
     Inr (AList.update key (merged (case map_of m key of None \<Rightarrow> empty_tool_call | Some r \<Rightarrow> r) [JObj kvs]) m)"
  using assms
  by (simp del: py_in.simps add: arguments_str_update_same observe_def seq_def py_in_JObj set_call_id_JObj merged_def fragment_id_def
      fragment_name_def fragment_arguments_def fragment_function_def fragment_text_def split: option.splits)

lemma observe_function_no_args:
  assumes "map_of kvs ''index'' = Some i" "py_key i = Inr key" "map_of kvs ''function'' = Some (JObj f)"
    "map_of f ''arguments'' = None"
  shows "observe m (JObj kvs) =
     Inr (AList.update key (merged (case map_of m key of None \<Rightarrow> empty_tool_call | Some r \<Rightarrow> r) [JObj kvs]) m)"
  using assms
  by (simp del: py_in.simps add: arguments_str_update_same observe_def seq_def py_in_JObj set_call_id_JObj set_tool_name_JObj
      add_arguments_absent merged_def fragment_id_def
      fragment_name_def fragment_arguments_def fragment_function_def fragment_text_def split: option.splits)

lemma observe_function_args:
  assumes "map_of kvs ''index'' = Some i" "py_key i = Inr key" "map_of kvs ''function'' = Some (JObj f)"
    "map_of f ''arguments'' = Some (JStr s)"
  shows "observe m (JObj kvs) =
     Inr (AList.update key (merged (case map_of m key of None \<Rightarrow> empty_tool_call | Some r \<Rightarrow> r) [JObj kvs]) m)"
  using assms
  by (simp del: py_in.simps add: arguments_str_update_same observe_def seq_def py_in_JObj set_call_id_JObj set_tool_name_JObj
      add_arguments_str merged_def fragment_id_def
      fragment_name_def fragment_arguments_def fragment_function_def fragment_text_def split: option.splits)

lemma observe_one:
  assumes "addresses key tc" "well_formed_fragment tc"
  shows "observe m tc =
     Inr (AList.update key (merged (case map_of m key of None \<Rightarrow> empty_tool_call | Some r \<Rightarrow> r) [tc]) m)"
proof -
  from assms(1) obtain kvs i where tc: "tc = JObj kvs" and i: "map_of kvs ''index'' = Some i"
    and k: "py_key i = Inr key"
    by (auto simp: addresses_def split: json.splits option.splits)
  show ?thesis
  proof (cases "map_of kvs ''function''")
    case None
    then show ?thesis using observe_no_function[OF i k] tc by simp
  next
    case (Some fv)
    with assms(2) tc obtain f where f: "fv = JObj f"
      by (auto simp: well_formed_fragment_def split: json.splits)
    show ?thesis
    proof (cases "map_of f ''arguments''")
      case None
      then show ?thesis using observe_function_no_args[OF i k] Some f tc by simp
    next
      case (Some a)
      with assms(2) tc f \<open>map_of kvs ''function'' = Some fv\<close> obtain s where "a = JStr s"
        by (auto simp: well_formed_fragment_def split: json.splits)
      then show ?thesis
        using observe_function_args[OF i k] Some f tc \<open>map_of kvs ''function'' = Some fv\<close> by simp
    qed
  qed
qed


lemma merged_Nil: "merged r [] = r"
  by (simp add: merged_def arguments_str_update_same split: option.splits)

lemma merged_Cons: "merged (merged r [tc]) tcs = merged r (tc # tcs)"
  by (simp add: merged_def fragment_text_def split: option.splits)

lemma observe_all_present:
  assumes "\<forall>tc\<in>set tcs. addresses key tc \<and> well_formed_fragment tc" "map_of m key = Some r"
  shows "observe_all m tcs = Inr (AList.update key (merged r tcs) m)"
  using assms
proof (induction tcs arbitrary: m r)
  case Nil
  then show ?case by (simp add: merged_Nil AList.update_triv)
next
  case (Cons tc tcs)
  have one: "observe m tc = Inr (AList.update key (merged r [tc]) m)"
    using observe_one[of key tc m] Cons.prems by simp
  have look: "map_of (AList.update key (merged r [tc]) m) key = Some (merged r [tc])"
    by (simp add: AList.update_conv')
  have "observe_all (AList.update key (merged r [tc]) m) tcs =
        Inr (AList.update key (merged (merged r [tc]) tcs) (AList.update key (merged r [tc]) m))"
    using Cons.IH[OF _ look] Cons.prems(1) by simp
  then show ?case
    by (simp add: one seq_def merged_Cons)
qed

text \<open>
  One loop over the fragments of a chunk: when every fragment of a non-empty list addresses
  the same index and the dict is empty, the dict ends with exactly one entry, under that
  index. Its argument string is the concatenation, in arrival order, of the argument pieces
  of the fragments (and the key is absent when no fragment carried a piece); its
  \<^verbatim>\<open>call_id\<close> and \<^verbatim>\<open>tool_name\<close> are those of the last fragment that carried one.
\<close>

lemma observe_all_same_index:
  assumes "\<forall>tc\<in>set tcs. addresses key tc \<and> well_formed_fragment tc" and "tcs \<noteq> []"
  shows "observe_all [] tcs =
     Inr [(key, \<lparr>call_id = last_some (map fragment_id tcs) None,
                 tool_name = last_some (map fragment_name tcs) None,
                 arguments_str =
                   (if list_all (\<lambda>tc. fragment_arguments tc = None) tcs then None
                    else Some (concat (map fragment_text tcs))),
                 arguments = None\<rparr>)]"
proof -
  from assms(2) obtain tc rest where tcs: "tcs = tc # rest" by (cases tcs) auto
  have one: "observe [] tc = Inr [(key, merged empty_tool_call [tc])]"
    using observe_one[of key tc "[]"] assms(1) tcs by simp
  have "observe_all [(key, merged empty_tool_call [tc])] rest =
        Inr (AList.update key (merged (merged empty_tool_call [tc]) rest)
               [(key, merged empty_tool_call [tc])])"
    using observe_all_present[of rest key "[(key, merged empty_tool_call [tc])]"] assms(1) tcs
    by simp
  then have "observe_all [] tcs = Inr [(key, merged empty_tool_call tcs)]"
    by (simp add: tcs one seq_def merged_Cons)
  moreover have "merged empty_tool_call tcs =
     \<lparr>call_id = last_some (map fragment_id tcs) None,
      tool_name = last_some (map fragment_name tcs) None,
      arguments_str =
        (if list_all (\<lambda>tc. fragment_arguments tc = None) tcs then None
         else Some (concat (map fragment_text tcs))),
      arguments = None\<rparr>"
    by (simp add: merged_def empty_tool_call_def fragment_text_def)
  ultimately show ?thesis by simp
qed

section \<open>The vLLM stream conversion\<close>

lemma length_prefix_str: "length prefix_str = 6"
  by (simp add: prefix_str_def)

lemma length_suffix_str: "length suffix_str = 2"
  by (simp add: suffix_str_def)

lemma done_chunk_iff:
  "(startswith c prefix_str \<and> endswith c suffix_str \<and> data_str_of c = ''[DONE]'') = (c = done_chunk)"
proof
  assume h: "startswith c prefix_str \<and> endswith c suffix_str \<and> data_str_of c = ''[DONE]''"
  then have d: "drop 6 (take (length c - 2) c) = ''[DONE]''"
    unfolding data_str_of_def length_prefix_str length_suffix_str by simp
  then have "length (drop 6 (take (length c - 2) c)) = length ''[DONE]''" by (rule arg_cong)
  then have len: "length c = 14" by simp
  have p: "take 6 c = prefix_str"
    using h unfolding startswith_def length_prefix_str by simp
  have s: "drop 12 c = suffix_str"
    using h len unfolding endswith_def length_suffix_str by simp
  have d12: "drop 6 (take 12 c) = ''[DONE]''" using d len by simp
  have "c = take 12 c @ drop 12 c" by simp
  also have "take 12 c = take 6 (take 12 c) @ drop 6 (take 12 c)" by (simp only: append_take_drop_id)
  also have "take 6 (take 12 c) = take 6 c" by simp
  finally have "c = (take 6 c @ drop 6 (take 12 c)) @ drop 12 c" .
  then show "c = done_chunk" unfolding p s d12 done_chunk_def by simp
next
  assume "c = done_chunk"
  then show "startswith c prefix_str \<and> endswith c suffix_str \<and> data_str_of c = ''[DONE]''"
    by (simp add: done_chunk_def startswith_def endswith_def data_str_of_def prefix_str_def suffix_str_def)
qed

lemma chunk_of_shape:
  "startswith (chunk_of d) prefix_str \<and> endswith (chunk_of d) suffix_str \<and>
   data_str_of (chunk_of d) = d"
  by (simp add: chunk_of_def startswith_def endswith_def data_str_of_def)

lemma output_tool_calls_progress:
  "output_tool_calls jl csr m = (evs, res) \<Longrightarrow> ev \<in> set evs \<Longrightarrow>
     event_type ev = progress \<and> (\<exists>r. delta ev = ToolCallDelta r ''succeeded'')"
proof (induction m arbitrary: evs res)
  case Nil
  then show ?case by simp
next
  case (Cons kr m)
  obtain k r where kr: "kr = (k, r)" by (cases kr)
  show ?case
  proof (cases "arguments_str r")
    case None
    with Cons.prems kr show ?thesis by simp
  next
    case (Some s)
    show ?thesis
    proof (cases "jl s")
      case None
      with Cons.prems kr Some show ?thesis by simp
    next
      case (Some a)
      obtain evs' res' where rec: "output_tool_calls jl csr m = (evs', res')"
        by (cases "output_tool_calls jl csr m")
      with Cons.prems kr \<open>arguments_str r = Some s\<close> Some
      have "evs = \<lparr>event_type = progress,
                    delta = ToolCallDelta (r\<lparr>arguments := Some a, arguments_str := None\<rparr>) ''succeeded'',
                    stop_reason = csr\<rparr> # evs'"
        by (simp add: Let_def)
      with Cons.prems(2) Cons.IH[OF rec] show ?thesis by auto
    qed
  qed
qed

lemma convert_delta_progress:
  "convert_delta m csr d = (evs, res) \<Longrightarrow> ev \<in> set evs \<Longrightarrow> event_type ev = progress"
  by (auto simp: convert_delta_def split: sum.splits bool.splits)

lemma convert_record_progress:
  assumes "convert_record jl st ds = (evs, res)" "ev \<in> set evs"
  shows "event_type ev = progress"
proof -
  show ?thesis
    using assms
    apply (simp add: convert_record_def Let_def split: option.splits sum.splits prod.splits if_splits)
    apply (auto dest: convert_delta_progress output_tool_calls_progress)
    done
qed

lemma convert_delta_content:
  "map_of kvs ''content'' = Some c \<Longrightarrow>
   convert_delta m csr (JObj kvs) =
     ([\<lparr>event_type = progress, delta = TextDelta c, stop_reason = csr\<rparr>], Inr m)"
  by (simp add: convert_delta_def py_in_JObj del: py_in.simps)

lemma convert_record_text:
  assumes "text_chunk jl c = Some cf"
  shows "convert_record jl \<lparr>index_to_tool_call = [], converted_stop_reason = v\<rparr> (data_str_of c) =
     ([text_event cf],
      Inr \<lparr>index_to_tool_call = [], converted_stop_reason = Some (convert_finish_reason (snd cf))\<rparr>)"
proof -
  from assms obtain parsed fc fr kvs cv where
    p: "jl (data_str_of c) = Some parsed" and
    fc: "seq (getitem_str parsed ''choices'') getitem_0 = Inr fc" and
    fr: "getitem_str fc ''finish_reason'' = Inr fr" and
    d: "getitem_str fc ''delta'' = Inr (JObj kvs)" and
    t: "map_of kvs ''content'' = Some cv" and
    cf: "cf = (cv, fr)"
    by (auto simp: text_chunk_def split: if_splits option.splits sum.splits json.splits)
  show ?thesis
    unfolding convert_record_def
    by (simp add: Let_def p fc fr d convert_delta_content[OF t] text_event_def cf
        del: convert_finish_reason.simps)
qed

lemma text_chunk_shape:
  "text_chunk jl c = Some cf \<Longrightarrow>
     startswith c prefix_str \<and> endswith c suffix_str \<and> data_str_of c \<noteq> ''[DONE]''"
  by (simp add: text_chunk_def split: if_splits)

lemma stream_loop_text:
  assumes "text_chunk jl c = Some cf"
  shows "stream_loop jl \<lparr>index_to_tool_call = [], converted_stop_reason = v\<rparr> (c # rest) =
     (case stream_loop jl
             \<lparr>index_to_tool_call = [],
              converted_stop_reason = Some (convert_finish_reason (snd cf))\<rparr> rest of
        (evs, out) \<Rightarrow> (text_event cf # evs, out))"
  using text_chunk_shape[OF assms] convert_record_text[OF assms, of v]
  by (simp del: convert_finish_reason.simps split: prod.splits)

lemma stream_loop_text_run:
  assumes "map (text_chunk jl) chunks = map Some cfs"
  shows "stream_loop jl \<lparr>index_to_tool_call = [], converted_stop_reason = v\<rparr> (chunks @ rest) =
     (case stream_loop jl
             \<lparr>index_to_tool_call = [],
              converted_stop_reason =
                (if cfs = [] then v else Some (convert_finish_reason (snd (last cfs))))\<rparr> rest of
        (evs, out) \<Rightarrow> (map text_event cfs @ evs, out))"
  using assms
proof (induction chunks arbitrary: cfs v)
  case Nil
  then show ?case by (simp split: prod.splits)
next
  case (Cons c chunks)
  then obtain cf cfs' where cfs: "cfs = cf # cfs'" and c: "text_chunk jl c = Some cf"
    and r: "map (text_chunk jl) chunks = map Some cfs'"
    by (cases cfs) auto
  show ?case
    using Cons.IH[OF r, of "Some (convert_finish_reason (snd cf))"]
    by (simp add: stream_loop_text[OF c] cfs del: stream_loop.simps convert_finish_reason.simps
        split: prod.splits)
qed

lemma done_chunk_shape:
  "startswith done_chunk prefix_str \<and> endswith done_chunk suffix_str \<and>
   data_str_of done_chunk = ''[DONE]''"
  using done_chunk_iff[of done_chunk] by simp

lemma stream_loop_done:
  "stream_loop jl \<lparr>index_to_tool_call = m, converted_stop_reason = v\<rparr> (done_chunk # rest) =
     (case v of
        None \<Rightarrow> ([], Raised UnboundLocalError)
      | Some csr \<Rightarrow>
          ([\<lparr>event_type = complete, delta = TextDelta (JStr []), stop_reason = csr\<rparr>], Returned))"
  using done_chunk_iff[of done_chunk] by simp

lemma stream_loop_unterminated:
  "done_chunk \<notin> set chunks \<Longrightarrow>
     \<exists>evs e. stream_loop jl st chunks = (evs, Raised e) \<and> (\<forall>ev\<in>set evs. event_type ev = progress)"
proof (induction chunks arbitrary: st)
  case Nil
  then show ?case by simp
next
  case (Cons c chunks)
  show ?case
  proof (cases "\<not> startswith c prefix_str \<or> \<not> endswith c suffix_str")
    case True
    then show ?thesis by auto
  next
    case wf: False
    with Cons.prems done_chunk_iff[of c] have nd: "data_str_of c \<noteq> ''[DONE]''" by auto
    obtain evs res where cr: "convert_record jl st (data_str_of c) = (evs, res)"
      by (cases "convert_record jl st (data_str_of c)")
    have pr: "\<forall>ev\<in>set evs. event_type ev = progress"
      using convert_record_progress[OF cr] by blast
    show ?thesis
    proof (cases res)
      case (Inl e)
      with wf nd cr pr show ?thesis by simp
    next
      case (Inr st')
      from Cons.IH[of st'] Cons.prems obtain evs' e where
        "stream_loop jl st' chunks = (evs', Raised e)" "\<forall>ev\<in>set evs'. event_type ev = progress"
        by auto
      with wf nd cr pr Inr show ?thesis by auto
    qed
  qed
qed

lemma stream_loop_error_origin:
  assumes "stream_loop jl st chunks = (evs, Raised e)" and "e \<noteq> ValueError EndedWithoutDONE"
  shows "\<exists>c\<in>set chunks.
           (e = ValueError CantParseResultString \<and>
            \<not> (startswith c prefix_str \<and> endswith c suffix_str)) \<or>
           e = UnboundLocalError \<and> c = done_chunk \<or>
           (\<exists>st' evs'. convert_record jl st' (data_str_of c) = (evs', Inl e))"
  using assms
proof (induction chunks arbitrary: st evs)
  case Nil
  then show ?case by simp
next
  case (Cons c chunks)
  show ?case
  proof (cases "\<not> startswith c prefix_str \<or> \<not> endswith c suffix_str")
    case True
    with Cons.prems have "e = ValueError CantParseResultString" by auto
    with True show ?thesis by auto
  next
    case wf: False
    show ?thesis
    proof (cases "data_str_of c = ''[DONE]''")
      case True
      with wf have c: "c = done_chunk" using done_chunk_iff[of c] by simp
      from Cons.prems wf True have "e = UnboundLocalError"
        by (auto split: option.splits)
      with c show ?thesis by auto
    next
      case nd: False
      obtain evs1 res where cr: "convert_record jl st (data_str_of c) = (evs1, res)"
        by (cases "convert_record jl st (data_str_of c)")
      show ?thesis
      proof (cases res)
        case (Inl e')
        with Cons.prems wf nd cr have "e' = e" by simp
        with cr Inl show ?thesis by auto
      next
        case (Inr st')
        obtain evs2 out where r: "stream_loop jl st' chunks = (evs2, out)"
          by (cases "stream_loop jl st' chunks")
        with Cons.prems wf nd cr Inr have "out = Raised e" by simp
        with Cons.IH[of st' evs2] r Cons.prems(2) show ?thesis by auto
      qed
    qed
  qed
qed

lemma output_tool_calls_stops:
  assumes "list_all (decodes jl) good" "arguments_str r = Some s" "jl s = None"
  shows "output_tool_calls jl csr (good @ (k, r) # later) =
           (fst (output_tool_calls jl csr good), Inl JSONDecodeError)"
  using assms(1)
proof (induction good)
  case Nil
  then show ?case using assms(2,3) by simp
next
  case (Cons kr good)
  obtain k' r' where kr: "kr = (k', r')" by (cases kr)
  from Cons.prems kr obtain s' a where s': "arguments_str r' = Some s'" and a: "jl s' = Some a"
    by (auto simp: decodes_def split: option.splits)
  from Cons have IH: "output_tool_calls jl csr (good @ (k, r) # later) =
           (fst (output_tool_calls jl csr good), Inl JSONDecodeError)" by simp
  show ?case
    by (simp add: kr s' a IH Let_def split: prod.splits)
qed

text \<open>
  For one or more plain-text chunks followed by the terminal marker the adapter yields the
  start event with an empty text delta, one progress event per chunk with its text, in
  arrival order, and last the complete event, which carries the converted finish reason of
  the last chunk: \<open>1 + N + 1\<close> events.
\<close>

lemma text_stream_terminated:
  assumes "map (text_chunk jl) chunks = map Some cfs" and "chunks \<noteq> []"
  shows "convert_streaming_results jl (chunks @ [done_chunk]) =
     (\<lparr>event_type = start, delta = TextDelta (JStr []), stop_reason = None\<rparr> #
      map text_event cfs @
      [\<lparr>event_type = complete, delta = TextDelta (JStr []),
        stop_reason = convert_finish_reason (snd (last cfs))\<rparr>],
      Returned)"
proof -
  from assms have "cfs \<noteq> []" by auto
  then show ?thesis
    unfolding convert_streaming_results_def
    by (simp add: stream_loop_text_run[OF assms(1)] stream_loop_done
        del: stream_loop.simps convert_finish_reason.simps)
qed

lemma text_stream_event_count:
  assumes "map (text_chunk jl) chunks = map Some cfs" and "chunks \<noteq> []"
  shows "length (fst (convert_streaming_results jl (chunks @ [done_chunk]))) =
           1 + length chunks + 1"
proof -
  have "length cfs = length chunks"
    using assms(1) by (metis length_map)
  then show ?thesis
    by (simp add: text_stream_terminated[OF assms])
qed

text \<open>
  C6 fails for \<open>N = 0\<close>: when the terminal marker is the first chunk, the local variable
  \<^verbatim>\<open>converted_stop_reason\<close> has not been assigned, and the adapter raises
  \<^verbatim>\<open>UnboundLocalError\<close> after the start event instead of yielding the complete event.
\<close>

theorem done_first_raises:
  "convert_streaming_results json_loads [done_chunk] =
     ([\<lparr>event_type = start, delta = TextDelta (JStr []), stop_reason = None\<rparr>],
      Raised UnboundLocalError)"
  unfolding convert_streaming_results_def
  by (simp add: stream_loop_done del: stream_loop.simps)

section \<open>Tool-call fragments across chunks\<close>
















section \<open>Malformed tool-call arguments\<close>

text \<open>
  C2, as stated, fails: the stream \<^verbatim>\<open>text("Hello")\<close>, a tool call with the argument
  string \<^verbatim>\<open>{liquid\<close> and finish reason \<^verbatim>\<open>tool_calls\<close>, \<^verbatim>\<open>[DONE]\<close> ends with the
  decoder's error after the text event. No event with a failed parse status and no complete
  event is yielded.
\<close>

theorem malformed_arguments_raise:
  "convert_streaming_results sample_json_loads
     [chunk_of hello_record, chunk_of tool_record, done_chunk] =
   ([\<lparr>event_type = start, delta = TextDelta (JStr []), stop_reason = None\<rparr>,
     \<lparr>event_type = progress, delta = TextDelta (JStr ''Hello''), stop_reason = None\<rparr>],
    Raised JSONDecodeError)"
  by (simp add: convert_streaming_results_def chunk_of_shape convert_record_def
      sample_json_loads_def hello_record_def world_record_def tool_record_def seq_def
      convert_delta_def observe_def Let_def set_call_id_def set_tool_name_def add_arguments_def
      str_iadd_def empty_tool_call_def)

text \<open>
  C2, amended: when a record with finish reason \<^verbatim>\<open>tool_calls\<close> starts the terminal pass
  and the first buffered call (in insertion order) whose argument string does not decode
  comes after the calls \<open>good\<close>, the stream ends there with \<^verbatim>\<open>JSONDecodeError\<close>. What was
  yielded before stands, the calls in \<open>good\<close> are yielded as succeeded, and nothing is
  yielded for the malformed call, for later calls or for the rest of the stream: every event
  of this chunk is a progress event, and no tool-call delta has a status other than
  \<^verbatim>\<open>succeeded\<close>.
\<close>

theorem malformed_arguments_abort:
  assumes "startswith c prefix_str" and "endswith c suffix_str" and "data_str_of c \<noteq> ''[DONE]''"
    and "json_loads (data_str_of c) = Some parsed_chunk"
    and "seq (getitem_str parsed_chunk ''choices'') getitem_0 = Inr first_choice"
    and "getitem_str first_choice ''finish_reason'' = Inr (JStr ''tool_calls'')"
    and "getitem_str first_choice ''delta'' = Inr delta_record"
    and "convert_delta (index_to_tool_call st) (Some out_of_tokens) delta_record =
           (evs, Inr (good @ (k, r) # later))"
    and "list_all (decodes json_loads) good"
    and "arguments_str r = Some s" and "json_loads s = None"
  shows "stream_loop json_loads st (c # rest) =
           (evs @ fst (output_tool_calls json_loads (Some out_of_tokens) good),
            Raised JSONDecodeError) \<and>
         length (fst (output_tool_calls json_loads (Some out_of_tokens) good)) = length good \<and>
         (\<forall>ev \<in> set (evs @ fst (output_tool_calls json_loads (Some out_of_tokens) good)).
            event_type ev = progress \<and>
            (\<forall>rec status. delta ev = ToolCallDelta rec status \<longrightarrow> status = ''succeeded''))"
proof -
  let ?out = "fst (output_tool_calls json_loads (Some out_of_tokens) good)"
  have stop: "output_tool_calls json_loads (Some out_of_tokens) (good @ (k, r) # later) =
                (?out, Inl JSONDecodeError)"
    using output_tool_calls_stops[OF assms(9,10,11)] .
  have rec: "convert_record json_loads st (data_str_of c) = (evs @ ?out, Inl JSONDecodeError)"
    unfolding convert_record_def
    by (simp add: assms(4,5,6,7,8) stop)
  have loop: "stream_loop json_loads st (c # rest) = (evs @ ?out, Raised JSONDecodeError)"
    using assms(1,2,3) rec by simp
  have len: "length ?out = length good"
    using assms(9)
  proof (induction good)
    case Nil
    then show ?case by simp
  next
    case (Cons kr good)
    then show ?case
      by (cases kr) (auto simp: decodes_def Let_def split: option.splits prod.splits)
  qed
  have ev1: "\<forall>ev\<in>set evs. event_type ev = progress \<and>
               (\<forall>rec status. delta ev = ToolCallDelta rec status \<longrightarrow> status = ''succeeded'')"
    using assms(8)
    by (auto simp: convert_delta_def split: sum.splits bool.splits)
  have ev2: "\<forall>ev\<in>set ?out. event_type ev = progress \<and>
               (\<forall>rec status. delta ev = ToolCallDelta rec status \<longrightarrow> status = ''succeeded'')"
  proof
    fix ev assume "ev \<in> set ?out"
    then have "event_type ev = progress \<and> (\<exists>r. delta ev = ToolCallDelta r ''succeeded'')"
      using output_tool_calls_progress[of json_loads "Some out_of_tokens" good ?out
            "snd (output_tool_calls json_loads (Some out_of_tokens) good)" ev]
      by simp
    then show "event_type ev = progress \<and>
               (\<forall>rec status. delta ev = ToolCallDelta rec status \<longrightarrow> status = ''succeeded'')"
      by auto
  qed
  show ?thesis using loop len ev1 ev2 by auto
qed

theorem malformed_arguments_abort_witness:
  "stream_loop sample_json_loads \<lparr>index_to_tool_call = [], converted_stop_reason = None\<rparr>
     [chunk_of tool_record, done_chunk] = ([], Raised JSONDecodeError)"
proof -
  let ?tc = "JObj [(''index'', JInt 0), (''id'', JStr ''c1''),
                   (''function'', JObj [(''name'', JStr ''get_boiling_point''),
                                        (''arguments'', JStr ''{liquid'')])]"
  let ?delta = "JObj [(''tool_calls'', JArr [?tc])]"
  let ?choice = "JObj [(''delta'', ?delta), (''finish_reason'', JStr ''tool_calls'')]"
  let ?parsed = "JObj [(''choices'', JArr [?choice])]"
  let ?r = "\<lparr>call_id = Some (JStr ''c1''), tool_name = Some (JStr ''get_boiling_point''),
             arguments_str = Some ''{liquid'', arguments = None\<rparr>"
  let ?st = "\<lparr>index_to_tool_call = [], converted_stop_reason = None\<rparr>"
  have h1: "startswith (chunk_of tool_record) prefix_str"
    and h2: "endswith (chunk_of tool_record) suffix_str"
    by (simp_all add: chunk_of_shape)
  have h3: "data_str_of (chunk_of tool_record) \<noteq> ''[DONE]''"
    by (simp add: chunk_of_shape tool_record_def)
  have h4: "sample_json_loads (data_str_of (chunk_of tool_record)) = Some ?parsed"
    by (simp add: chunk_of_shape sample_json_loads_def hello_record_def world_record_def
        tool_record_def)
  have h5: "seq (getitem_str ?parsed ''choices'') getitem_0 = Inr ?choice"
    by (simp add: seq_def)
  have h6: "getitem_str ?choice ''finish_reason'' = Inr (JStr ''tool_calls'')"
    by simp
  have h7: "getitem_str ?choice ''delta'' = Inr ?delta"
    by simp
  have h8: "convert_delta (index_to_tool_call ?st) (Some out_of_tokens) ?delta =
              ([], Inr ([] @ (JInt 0, ?r) # []))"
    by (simp add: convert_delta_def seq_def observe_def Let_def set_call_id_def
        set_tool_name_def add_arguments_def str_iadd_def empty_tool_call_def)
  have h9: "list_all (decodes sample_json_loads) []"
    by simp
  have h10: "arguments_str ?r = Some ''{liquid''"
    by simp
  have h11: "sample_json_loads ''{liquid'' = None"
    by (simp add: sample_json_loads_def hello_record_def world_record_def tool_record_def)
  show ?thesis
    using malformed_arguments_abort [OF h1 h2 h3 h4 h5 h6 h7 h8 h9 h10 h11, of "[done_chunk]"]
    by simp
qed

section \<open>Streams that end without the terminal marker\<close>

text \<open>
  C1, as stated, fails on the Groq adapter, which has no terminal marker: when the
  iterator is exhausted it yields a complete event.
\<close>

theorem groq_completes_at_exhaustion:
  "convert_chat_completion_response_stream
     [\<lparr>choices = [\<lparr>finish_reason = Some ''stop'', delta_content = Some ''Hi''\<rparr>]\<rparr>] =
   ([\<lparr>event_type = start, delta = ''Hi'', stop_reason = None\<rparr>,
     \<lparr>event_type = complete, delta = [], stop_reason = Some end_of_turn\<rparr>],
    Returned)"
  by (simp add: convert_chat_completion_response_stream_def seq_def)

lemma groq_loop_returns:
  assumes "list_all convertible chunks" and "sv \<noteq> None \<or> list_ex carries_finish_reason chunks"
  shows "\<exists>pre s. groq_loop first sv chunks =
            (pre @ [\<lparr>event_type = complete, delta = [], stop_reason = Some s\<rparr>], Returned) \<and>
          length pre = length chunks \<and> (\<forall>ev\<in>set pre. event_type ev \<noteq> complete)"
  using assms
proof (induction chunks arbitrary: first sv)
  case Nil
  then show ?case by auto
next
  case (Cons chunk chunks)
  from Cons.prems(1) obtain choice others where ch: "choices chunk = choice # others"
    and fr: "finish_reason choice \<in> {None, Some [], Some ''stop'', Some ''length''}"
    by (auto simp: convertible_def split: list.splits)
  define sv' where "sv' = (if finish_reason choice = Some ''stop'' then Some end_of_turn
                           else if finish_reason choice = Some ''length'' then Some end_of_message
                           else sv)"
  have upd: "(case finish_reason choice of
                None \<Rightarrow> Inr sv
              | Some fr \<Rightarrow> if fr = [] then Inr sv
                           else seq (map_finish_reason_to_stop_reason fr) (\<lambda>s. Inr (Some s))) = Inr sv'"
    using fr by (auto simp: sv'_def seq_def)
  have c: "carries_finish_reason chunk =
             (finish_reason choice = Some ''stop'' \<or> finish_reason choice = Some ''length'')"
    by (simp add: carries_finish_reason_def ch)
  have "sv' \<noteq> None \<or> list_ex carries_finish_reason chunks"
    using Cons.prems(2) c by (auto simp: sv'_def)
  with Cons.IH[of sv' False] Cons.prems(1) obtain pre s where
    r: "groq_loop False sv' chunks =
          (pre @ [\<lparr>event_type = complete, delta = [], stop_reason = Some s\<rparr>], Returned)"
    and l: "length pre = length chunks" and n: "\<forall>ev\<in>set pre. event_type ev \<noteq> complete"
    by auto
  let ?ev = "\<lparr>event_type = (if first then start else progress),
              delta = (case delta_content choice of None \<Rightarrow> [] | Some c \<Rightarrow> c),
              stop_reason = None\<rparr>"
  have "groq_loop first sv (chunk # chunks) =
          ((?ev # pre) @ [\<lparr>event_type = complete, delta = [], stop_reason = Some s\<rparr>], Returned)"
    by (simp add: ch upd r Let_def del: map_finish_reason_to_stop_reason.simps)
  moreover have "length (?ev # pre) = length (chunk # chunks)" using l by simp
  moreover have "\<forall>ev\<in>set (?ev # pre). event_type ev \<noteq> complete" using n by simp
  ultimately show ?case by blast
qed

text \<open>
  C1, amended. In the vLLM adapter a stream that ends without \<^verbatim>\<open>data: [DONE]\<close> always
  ends with an error and never yields a complete event. The error is the
  \<^verbatim>\<open>ValueError\<close> \<^verbatim>\<open>vLLM event stream ended without [DONE] message\<close> unless one of
  the chunks lacks the prefix or the suffix or raises while it is converted; when all chunks
  are plain-text chunks it is that \<^verbatim>\<open>ValueError\<close>, raised after the start event and
  their progress events. The Groq adapter
  has no terminal marker: a stream of convertible chunks, one of which carries a finish
  reason, is converted to one event per chunk followed by a complete event, yielded when
  the iterator is exhausted.
\<close>

theorem stream_without_terminal_marker:
  "(done_chunk \<notin> set vllm_result \<longrightarrow>
      (\<exists>evs e. convert_streaming_results json_loads vllm_result = (evs, Raised e) \<and>
               (\<forall>ev\<in>set evs. event_type ev \<noteq> complete))) \<and>
   (done_chunk \<notin> set vllm_result \<and>
    snd (convert_streaming_results json_loads vllm_result) = Raised err \<and>
    err \<noteq> ValueError EndedWithoutDONE \<longrightarrow>
      (\<exists>c\<in>set vllm_result.
         (err = ValueError CantParseResultString \<and>
          \<not> (startswith c prefix_str \<and> endswith c suffix_str)) \<or>
         (\<exists>st evs. convert_record json_loads st (data_str_of c) = (evs, Inl err)))) \<and>
   (map (text_chunk json_loads) vllm_result = map Some cfs \<longrightarrow>
      convert_streaming_results json_loads vllm_result =
        (\<lparr>event_type = start, delta = TextDelta (JStr []), stop_reason = None\<rparr> #
         map text_event cfs,
         Raised (ValueError EndedWithoutDONE))) \<and>
   (list_all convertible chunks \<and> list_ex carries_finish_reason chunks \<longrightarrow>
      (\<exists>pre s. convert_chat_completion_response_stream chunks =
                 (pre @ [\<lparr>event_type = complete, delta = [], stop_reason = Some s\<rparr>],
                  Returned) \<and>
               length pre = length chunks \<and> (\<forall>ev\<in>set pre. event_type ev \<noteq> complete)))"
proof (intro conjI impI)
  assume nd: "done_chunk \<notin> set vllm_result"
  from stream_loop_unterminated[OF nd, of json_loads
         "\<lparr>index_to_tool_call = [], converted_stop_reason = None\<rparr>"]
  obtain evs e where
    l: "stream_loop json_loads \<lparr>index_to_tool_call = [], converted_stop_reason = None\<rparr>
          vllm_result = (evs, Raised e)"
    and p: "\<forall>ev\<in>set evs. event_type ev = progress"
    by blast
  have "convert_streaming_results json_loads vllm_result =
          (\<lparr>event_type = start, delta = TextDelta (JStr []), stop_reason = None\<rparr> # evs,
           Raised e)"
    by (simp add: convert_streaming_results_def l)
  moreover have "\<forall>ev\<in>set (\<lparr>event_type = start, delta = TextDelta (JStr []),
                               stop_reason = None\<rparr> # evs). event_type ev \<noteq> complete"
    using p by simp
  ultimately show "\<exists>evs e. convert_streaming_results json_loads vllm_result = (evs, Raised e) \<and>
                     (\<forall>ev\<in>set evs. event_type ev \<noteq> complete)"
    by blast
next
  assume a: "done_chunk \<notin> set vllm_result \<and>
    snd (convert_streaming_results json_loads vllm_result) = Raised err \<and>
    err \<noteq> ValueError EndedWithoutDONE"
  obtain evs where
    l: "stream_loop json_loads \<lparr>index_to_tool_call = [], converted_stop_reason = None\<rparr>
          vllm_result = (evs, Raised err)"
    using a by (auto simp: convert_streaming_results_def split: prod.splits)
  from stream_loop_error_origin[OF l] a
  show "\<exists>c\<in>set vllm_result.
         (err = ValueError CantParseResultString \<and>
          \<not> (startswith c prefix_str \<and> endswith c suffix_str)) \<or>
         (\<exists>st evs. convert_record json_loads st (data_str_of c) = (evs, Inl err))"
    by blast
next
  assume t: "map (text_chunk json_loads) vllm_result = map Some cfs"
  show "convert_streaming_results json_loads vllm_result =
          (\<lparr>event_type = start, delta = TextDelta (JStr []), stop_reason = None\<rparr> #
           map text_event cfs,
           Raised (ValueError EndedWithoutDONE))"
    using stream_loop_text_run[OF t, of None "[]"]
    by (simp add: convert_streaming_results_def del: convert_finish_reason.simps)
next
  assume "list_all convertible chunks \<and> list_ex carries_finish_reason chunks"
  then show "\<exists>pre s. convert_chat_completion_response_stream chunks =
                 (pre @ [\<lparr>event_type = complete, delta = [], stop_reason = Some s\<rparr>],
                  Returned) \<and>
               length pre = length chunks \<and> (\<forall>ev\<in>set pre. event_type ev \<noteq> complete)"
    using groq_loop_returns[of chunks None True]
    by (simp add: convert_chat_completion_response_stream_def)
qed

theorem stream_without_terminal_marker_witness:
  "done_chunk \<notin> set [chunk_of hello_record] \<and>
   map (text_chunk sample_json_loads) [chunk_of hello_record] = map Some [(JStr ''Hello'', JNull)] \<and>
   list_all convertible
     [\<lparr>choices = [\<lparr>finish_reason = Some ''stop'', delta_content = Some ''Hi''\<rparr>]\<rparr>] \<and>
   list_ex carries_finish_reason
     [\<lparr>choices = [\<lparr>finish_reason = Some ''stop'', delta_content = Some ''Hi''\<rparr>]\<rparr>] \<and>
   convert_streaming_results sample_json_loads [chunk_of hello_record] =
     ([\<lparr>event_type = start, delta = TextDelta (JStr []), stop_reason = None\<rparr>,
       \<lparr>event_type = progress, delta = TextDelta (JStr ''Hello''), stop_reason = None\<rparr>],
      Raised (ValueError EndedWithoutDONE)) \<and>
   (\<exists>pre s. convert_chat_completion_response_stream
               [\<lparr>choices = [\<lparr>finish_reason = Some ''stop'', delta_content = Some ''Hi''\<rparr>]\<rparr>] =
             (pre @ [\<lparr>event_type = complete, delta = [], stop_reason = Some s\<rparr>], Returned)) \<and>
   done_chunk \<notin> set [chunk_of tool_record] \<and>
   snd (convert_streaming_results sample_json_loads [chunk_of tool_record]) =
     Raised JSONDecodeError \<and>
   (\<exists>st evs. convert_record sample_json_loads st (data_str_of (chunk_of tool_record)) =
               (evs, Inl JSONDecodeError))"
proof -
  have h1: "done_chunk \<notin> set [chunk_of hello_record]"
    by (simp add: done_chunk_def chunk_of_def hello_record_def)
  have h2: "map (text_chunk sample_json_loads) [chunk_of hello_record] =
              map Some [(JStr ''Hello'', JNull)]"
    by (simp add: text_chunk_def chunk_of_shape sample_json_loads_def hello_record_def seq_def)
  have h3: "list_all convertible
     [\<lparr>choices = [\<lparr>finish_reason = Some ''stop'', delta_content = Some ''Hi''\<rparr>]\<rparr>]"
    by (simp add: convertible_def)
  have h4: "list_ex carries_finish_reason
     [\<lparr>choices = [\<lparr>finish_reason = Some ''stop'', delta_content = Some ''Hi''\<rparr>]\<rparr>]"
    by (simp add: carries_finish_reason_def)
  have h5: "done_chunk \<notin> set [chunk_of tool_record]"
    by (simp add: done_chunk_def chunk_of_def tool_record_def)
  have h6: "snd (convert_streaming_results sample_json_loads [chunk_of tool_record]) =
              Raised JSONDecodeError"
    by (simp add: convert_streaming_results_def chunk_of_shape convert_record_def
        sample_json_loads_def hello_record_def world_record_def tool_record_def seq_def
        convert_delta_def observe_def Let_def set_call_id_def set_tool_name_def
        add_arguments_def str_iadd_def empty_tool_call_def)
  have a: "\<exists>st evs. convert_record sample_json_loads st (data_str_of (chunk_of tool_record)) =
                     (evs, Inl JSONDecodeError)"
    using h5 h6
      stream_without_terminal_marker [where vllm_result = "[chunk_of tool_record]"
        and json_loads = sample_json_loads and err = JSONDecodeError
        and cfs = "[]" and chunks = "[]"]
    by simp
  have b: "convert_streaming_results sample_json_loads [chunk_of hello_record] =
     ([\<lparr>event_type = start, delta = TextDelta (JStr []), stop_reason = None\<rparr>,
       \<lparr>event_type = progress, delta = TextDelta (JStr ''Hello''), stop_reason = None\<rparr>],
      Raised (ValueError EndedWithoutDONE)) \<and>
   (\<exists>pre s. convert_chat_completion_response_stream
               [\<lparr>choices = [\<lparr>finish_reason = Some ''stop'', delta_content = Some ''Hi''\<rparr>]\<rparr>] =
             (pre @ [\<lparr>event_type = complete, delta = [], stop_reason = Some s\<rparr>], Returned))"
    using h1 h2 h3 h4
      stream_without_terminal_marker [where vllm_result = "[chunk_of hello_record]"
        and json_loads = sample_json_loads and cfs = "[(JStr ''Hello'', JNull)]"
        and err = "ValueError EndedWithoutDONE" and chunks = "[\<lparr>choices = [\<lparr>finish_reason = Some ''stop'',
                                      delta_content = Some ''Hi''\<rparr>]\<rparr>]"]
    by (auto simp: text_event_def)
  show ?thesis
    using h1 h2 h3 h4 h5 h6 a b by simp
qed

section \<open>The stop reason of the terminal event\<close>

text \<open>
  C5, as stated, fails on the vLLM adapter: after a record whose finish reason is null the
  complete event carries no stop reason at all.
\<close>

theorem vllm_complete_without_stop_reason:
  "convert_streaming_results sample_json_loads [chunk_of hello_record, done_chunk] =
   ([\<lparr>event_type = start, delta = TextDelta (JStr []), stop_reason = None\<rparr>,
     \<lparr>event_type = progress, delta = TextDelta (JStr ''Hello''), stop_reason = None\<rparr>,
     \<lparr>event_type = complete, delta = TextDelta (JStr []), stop_reason = None\<rparr>],
    Returned)"
  by (simp add: convert_streaming_results_def chunk_of_shape convert_record_def
      sample_json_loads_def hello_record_def world_record_def tool_record_def seq_def
      convert_delta_def Let_def done_chunk_shape)

lemma token_loop_no_stop:
  fixes trs :: "'l token_result list" and st :: "'l mr_state"
  assumes "list_all (\<lambda>t. \<not> stop_token t) trs"
  shows "stop_reason_var (snd (token_loop req st trs :: 'tc mr_item list \<times> 'l mr_state))
           = stop_reason_var st"
  using assms
proof (induction trs arbitrary: st)
  case Nil
  then show ?case by simp
next
  case (Cons t trs)
  have IH: "\<And>st'. stop_reason_var
               (snd (token_loop req st' trs :: 'tc mr_item list \<times> 'l mr_state)) =
             stop_reason_var st'"
    using Cons by simp
  have t: "text_s t \<noteq> ''<|eot_id|>''" "text_s t \<noteq> ''<|eom_id|>''"
    using Cons.prems by (auto simp: stop_token_def)
  show ?case
    by (simp add: Let_def case_prod_beta IH t)
qed

text \<open>
  C5, amended. In the meta-reference implementation a streamed completion in which no
  token is \<^verbatim>\<open><|eot_id|>\<close> or \<^verbatim>\<open><|eom_id|>\<close> returns normally, and the last thing it
  yields is a complete event that carries \<open>out_of_tokens\<close>. In the vLLM adapter the complete event of a stream of plain-text chunks
  carries the converted finish reason of the last chunk before the terminal marker, which
  is no stop reason when that finish reason is null.
\<close>

theorem terminal_stop_reason:
  fixes token_results :: "'l token_result list"
    and decode_assistant_message :: "int list \<Rightarrow> StopReason \<Rightarrow> ('c, 'tc) message"
  shows
  "(stream req \<and> list_all (\<lambda>t. \<not> stop_token t) token_results \<longrightarrow>
      snd (chat_completion decode_assistant_message req token_results) = Returned \<and>
      last (fst (chat_completion decode_assistant_message req token_results)) =
        StreamChunk \<lparr>event_type = complete, delta = Text [],
                     stop_reason = Some out_of_tokens\<rparr>) \<and>
   (map (text_chunk json_loads) vllm_result = map Some cfs \<and> vllm_result \<noteq> [] \<longrightarrow>
      (\<exists>evs. convert_streaming_results json_loads (vllm_result @ [done_chunk]) =
               (evs @ [\<lparr>event_type = complete, delta = TextDelta (JStr []),
                        stop_reason = convert_finish_reason (snd (last cfs))\<rparr>],
                Returned) \<and>
             (\<forall>ev\<in>set evs. event_type ev \<noteq> complete)))"
proof -
  have first: "stream req \<and> list_all (\<lambda>t. \<not> stop_token t) token_results \<longrightarrow>
      snd (chat_completion decode_assistant_message req token_results) = Returned \<and>
      last (fst (chat_completion decode_assistant_message req token_results)) =
        StreamChunk \<lparr>event_type = complete, delta = Text [],
                     stop_reason = Some out_of_tokens\<rparr>"
  proof
    assume a: "stream req \<and> list_all (\<lambda>t. \<not> stop_token t) token_results"
    let ?st0 = "\<lparr>tokens = [], logprobs = [], stop_reason_var = None, buffer = [],
                 ipython = False\<rparr> :: 'l mr_state"
    have "stop_reason_var
            (snd (token_loop req ?st0 token_results :: 'tc mr_item list \<times> 'l mr_state)) =
          None"
      using token_loop_no_stop[of token_results req ?st0] a by simp
    then show "snd (chat_completion decode_assistant_message req token_results) = Returned \<and>
        last (fst (chat_completion decode_assistant_message req token_results)) =
          StreamChunk \<lparr>event_type = complete, delta = Text [],
                       stop_reason = Some out_of_tokens\<rparr>"
      using a by (simp add: chat_completion_def case_prod_beta Let_def)
  qed
  have second: "map (text_chunk json_loads) vllm_result = map Some cfs \<and> vllm_result \<noteq> [] \<longrightarrow>
      (\<exists>evs. convert_streaming_results json_loads (vllm_result @ [done_chunk]) =
               (evs @ [\<lparr>event_type = complete, delta = TextDelta (JStr []),
                        stop_reason = convert_finish_reason (snd (last cfs))\<rparr>],
                Returned) \<and>
             (\<forall>ev\<in>set evs. event_type ev \<noteq> complete))"
  proof
    assume a: "map (text_chunk json_loads) vllm_result = map Some cfs \<and> vllm_result \<noteq> []"
    have "convert_streaming_results json_loads (vllm_result @ [done_chunk]) =
       ((\<lparr>event_type = start, delta = TextDelta (JStr []), stop_reason = None\<rparr> #
         map text_event cfs) @
        [\<lparr>event_type = complete, delta = TextDelta (JStr []),
          stop_reason = convert_finish_reason (snd (last cfs))\<rparr>],
        Returned)"
      using text_stream_terminated[of json_loads vllm_result cfs] a by simp
    moreover have "\<forall>ev\<in>set (\<lparr>event_type = start, delta = TextDelta (JStr []),
                                 stop_reason = None\<rparr> # map text_event cfs).
                     event_type ev \<noteq> complete"
      by (auto simp: text_event_def)
    ultimately show "\<exists>evs. convert_streaming_results json_loads (vllm_result @ [done_chunk]) =
                 (evs @ [\<lparr>event_type = complete, delta = TextDelta (JStr []),
                          stop_reason = convert_finish_reason (snd (last cfs))\<rparr>],
                  Returned) \<and>
               (\<forall>ev\<in>set evs. event_type ev \<noteq> complete)"
      by blast
  qed
  show ?thesis using first second by (rule conjI)
qed

theorem terminal_stop_reason_witness:
  "stream \<lparr>stream = True, want_logprobs = False\<rparr> \<and>
   list_all (\<lambda>t. \<not> stop_token t) [\<lparr>text_s = ''Hi'', token = 13347, logprob = ()\<rparr>] \<and>
   chat_completion (\<lambda>toks stop. \<lparr>content = ''Hi'', tool_calls = ([] :: unit list)\<rparr>)
     \<lparr>stream = True, want_logprobs = False\<rparr>
     [\<lparr>text_s = ''Hi'', token = 13347, logprob = ()\<rparr>] =
     ([StreamChunk \<lparr>event_type = start, delta = Text [], stop_reason = None\<rparr>,
       StreamChunk \<lparr>event_type = progress, delta = Text ''Hi'', stop_reason = None\<rparr>,
       StreamChunk \<lparr>event_type = complete, delta = Text [],
                    stop_reason = Some out_of_tokens\<rparr>],
      Returned) \<and>
   map (text_chunk sample_json_loads) [chunk_of hello_record, chunk_of world_record] =
     map Some [(JStr ''Hello'', JNull), (JStr '' world'', JStr ''stop'')] \<and>
   (\<exists>evs. convert_streaming_results sample_json_loads
             ([chunk_of hello_record, chunk_of world_record] @ [done_chunk]) =
           (evs @ [\<lparr>event_type = complete, delta = TextDelta (JStr []),
                    stop_reason = Some end_of_turn\<rparr>], Returned))"
proof -
  have h1: "stream \<lparr>stream = True, want_logprobs = False\<rparr>"
    by simp
  have h2: "list_all (\<lambda>t. \<not> stop_token t) [\<lparr>text_s = ''Hi'', token = 13347, logprob = ()\<rparr>]"
    by (simp add: stop_token_def)
  have h3: "map (text_chunk sample_json_loads) [chunk_of hello_record, chunk_of world_record] =
     map Some [(JStr ''Hello'', JNull), (JStr '' world'', JStr ''stop'')]"
    by (simp add: text_chunk_def chunk_of_shape sample_json_loads_def hello_record_def
        world_record_def seq_def)
  show ?thesis
    using h1 h2 h3
      terminal_stop_reason [of "\<lparr>stream = True, want_logprobs = False\<rparr>"
        "[\<lparr>text_s = ''Hi'', token = 13347, logprob = ()\<rparr>]"
        "\<lambda>toks stop. \<lparr>content = ''Hi'', tool_calls = ([] :: unit list)\<rparr>"
        sample_json_loads "[chunk_of hello_record, chunk_of world_record]"
        "[(JStr ''Hello'', JNull), (JStr '' world'', JStr ''stop'')]"]
    by (auto simp: chat_completion_def Let_def startswith_def python_tag_def)
qed

section \<open>Row extraction from span trees\<close>

lemma fill_row_present:
  "list_all (\<lambda>attr. map_of d attr \<noteq> None) attrs \<Longrightarrow>
   fill_row py_str (Some d) attrs row =
     Inr (foldl (\<lambda>r attr. AList.update attr (attribute_str py_str d attr) r) row attrs)"
proof (induction attrs arbitrary: row)
  case Nil
  then show ?case by simp
next
  case (Cons attr attrs)
  then obtain v where v: "map_of d attr = Some v" by auto
  show ?case
    using Cons by (cases v) (simp_all add: v attribute_str_def)
qed

lemma has_attributes_present:
  "has_attributes span attrs \<Longrightarrow>
     \<exists>d. attributes span = Some d \<and> d \<noteq> [] \<and> list_all (\<lambda>attr. map_of d attr \<noteq> None) attrs"
  by (auto simp: has_attributes_def list_all_iff split: option.splits)

lemma fill_row_span_row:
  assumes "has_attributes span attrs"
  shows "fill_row py_str (attributes span) attrs (base_row trace span) =
           Inr (span_row py_str trace attrs span)"
proof -
  from has_attributes_present[OF assms] obtain d where d: "attributes span = Some d"
    and p: "list_all (\<lambda>attr. map_of d attr \<noteq> None) attrs" by blast
  show ?thesis
    by (simp add: span_row_def d fill_row_present[OF p])
qed

lemma concat_map_concat:
  "concat (map f (concat xss)) = concat (map (\<lambda>xs. concat (map f xs)) xss)"
  by (induction xss) auto

lemma rows_preorder_node:
  "concat (map f (preorder (SpanWithChildren sid tid par nm a cs))) =
     f (SpanWithChildren sid tid par nm a cs) @
     concat (map (\<lambda>c. concat (map f (preorder c))) cs)"
  by (simp add: concat_map_concat comp_def)

lemma extract_spans_preorder_aux:
  "extract_spans py_str trace attrs t =
     Inr (concat (map (own_rows py_str trace attrs) (preorder t)))"
  "extend_children py_str trace attrs cs rows =
     Inr (rows @ concat (map (\<lambda>c. concat (map (own_rows py_str trace attrs) (preorder c))) cs))"
proof (induction py_str trace attrs t and py_str trace attrs cs rows
       rule: extract_spans_extend_children.induct)
  case (1 py_str trace attributes_to_return sid tid par nm a cs)
  let ?span = "SpanWithChildren sid tid par nm a cs"
  have own: "(if has_attributes ?span attributes_to_return then
             seq (fill_row py_str a attributes_to_return
                    [(''trace_id'', root_span_id trace), (''span_id'', sid), (''step_name'', nm)])
                 (\<lambda>row. Inr [row])
           else Inr []) = Inr (own_rows py_str trace attributes_to_return ?span)"
    using fill_row_span_row[of ?span attributes_to_return py_str trace]
    by (simp add: own_rows_def seq_def base_row_def)
  have "extract_spans py_str trace attributes_to_return ?span =
          seq (Inr (own_rows py_str trace attributes_to_return ?span))
              (\<lambda>rows. extend_children py_str trace attributes_to_return cs rows)"
    by (simp only: extract_spans.simps Let_def own)
  also have "\<dots> = extend_children py_str trace attributes_to_return cs
                      (own_rows py_str trace attributes_to_return ?span)"
    by (simp add: seq_def)
  finally show ?case
    unfolding rows_preorder_node
    using "1.IH"[of ?span "own_rows py_str trace attributes_to_return ?span"]
    by simp
next
  case (2 py_str trace attributes_to_return rows)
  then show ?case by simp
next
  case (3 py_str trace attributes_to_return child cs rows)
  then show ?case by (simp add: seq_def)
qed

lemma map_of_foldl_update_other:
  "k \<notin> set attrs \<Longrightarrow>
     map_of (foldl (\<lambda>r attr. AList.update attr (g attr) r) row attrs) k = map_of row k"
  by (induction attrs arbitrary: row) (auto simp: AList.update_conv')

lemma map_of_foldl_update_same:
  "k \<in> set attrs \<Longrightarrow>
     map_of (foldl (\<lambda>r attr. AList.update attr (g attr) r) row attrs) k = Some (g k)"
proof (induction attrs arbitrary: row)
  case Nil
  then show ?case by simp
next
  case (Cons a attrs)
  show ?case
  proof (cases "k \<in> set attrs")
    case True
    then show ?thesis using Cons.IH by simp
  next
    case False
    with Cons.prems have "k = a" by simp
    with False show ?thesis
      by (simp add: map_of_foldl_update_other AList.update_conv')
  qed
qed

lemma span_row_eq:
  assumes "has_attributes span attrs" "attributes span = Some d"
  shows "span_row py_str trace attrs span =
           foldl (\<lambda>r attr. AList.update attr (attribute_str py_str d attr) r)
                 (base_row trace span) attrs"
proof -
  from has_attributes_present[OF assms(1)] assms(2)
  have p: "list_all (\<lambda>attr. map_of d attr \<noteq> None) attrs" by auto
  show ?thesis
    by (simp add: span_row_def assms(2) fill_row_present[OF p])
qed

lemma span_row_trace_id:
  assumes "has_attributes span attrs" "''trace_id'' \<notin> set attrs"
  shows "map_of (span_row py_str trace attrs span) ''trace_id'' = Some (root_span_id trace)"
proof -
  from has_attributes_present[OF assms(1)] obtain d where d: "attributes span = Some d" by blast
  show ?thesis
    by (simp add: span_row_eq[OF assms(1) d] map_of_foldl_update_other[OF assms(2)] base_row_def)
qed

lemma span_row_trace_id_requested:
  assumes "has_attributes span attrs" "attributes span = Some d" "''trace_id'' \<in> set attrs"
  shows "map_of (span_row py_str trace attrs span) ''trace_id'' =
           Some (attribute_str py_str d ''trace_id'')"
  by (simp add: span_row_eq[OF assms(1,2)] map_of_foldl_update_same[OF assms(3)])

lemma own_rows_trace_id:
  assumes "''trace_id'' \<notin> set attrs" "row \<in> set (own_rows py_str trace attrs span)"
  shows "map_of row ''trace_id'' = Some (root_span_id trace)"
  using assms span_row_trace_id[of span attrs py_str trace]
  by (auto simp: own_rows_def split: if_splits)

lemma query_spans_loop_rows:
  "query_spans_loop py_str get_span_tree attrs max_depth traces rows =
     Inr (rows @ concat (map (\<lambda>trace. concat (map (own_rows py_str trace attrs)
                                 (preorder (get_span_tree (root_span_id trace) attrs max_depth))))
                            traces))"
  by (induction traces arbitrary: rows)
     (simp_all add: Let_def seq_def extract_spans_preorder_aux(1))

lemma concat_map_filter:
  "concat (map (\<lambda>x. if P x then [f x] else []) xs) = map f (filter P xs)"
  by (induction xs) auto

lemma own_rows_no_attributes:
  "own_rows py_str trace [] =
     (\<lambda>span. if attributes span \<noteq> None \<and> attributes span \<noteq> Some []
             then [base_row trace span] else [])"
  by (rule ext)
     (auto simp: own_rows_def has_attributes_def span_row_def split: option.splits)

lemma has_attributes_all_present:
  "has_attributes span attrs \<Longrightarrow> all_attributes_present span attrs"
  by (auto simp: has_attributes_def all_attributes_present_def list_all_iff
      split: option.splits)

lemma all_present_has_attributes:
  assumes "all_attributes_present span attrs" "attrs \<noteq> []"
  shows "has_attributes span attrs"
proof -
  from assms(2) obtain a rest where a: "attrs = a # rest" by (cases attrs) auto
  with assms(1) obtain d v where d: "attributes span = Some d" and v: "map_of d a = Some (Some v)"
    by (auto simp: all_attributes_present_def split: option.splits)
  from v have "d \<noteq> []" by auto
  moreover have "list_all (\<lambda>attr. case map_of d attr of None \<Rightarrow> False | Some v \<Rightarrow> v \<noteq> None) attrs"
    using assms(1) d
    by (auto simp: all_attributes_present_def list_all_iff split: option.splits)
  ultimately show ?thesis by (simp add: has_attributes_def d)
qed

lemma preorder_self: "t \<in> set (preorder t)"
  by (cases t) simp

lemma preorder_trans:
  "s \<in> set (preorder t) \<Longrightarrow> d \<in> set (preorder s) \<Longrightarrow> d \<in> set (preorder t)"
proof (induction t)
  case (SpanWithChildren sid tid par nm a cs)
  show ?case
  proof (cases "s = SpanWithChildren sid tid par nm a cs")
    case True
    with SpanWithChildren.prems show ?thesis by simp
  next
    case False
    with SpanWithChildren.prems(1) obtain c where c: "c \<in> set cs" and s: "s \<in> set (preorder c)"
      by auto
    from SpanWithChildren.IH[OF c s SpanWithChildren.prems(2)] c show ?thesis by auto
  qed
qed

text \<open>
  C8, as stated, fails: with no attribute requested, a span whose attributes map is empty
  yields no row, because the test starts with the truth value of the map.
\<close>

theorem empty_attributes_no_row:
  "extract_spans (\<lambda>v. v) sample_trace []
     (SpanWithChildren ''s1'' ''t1'' None ''root'' (Some []) []) = Inr []"
  by (simp add: has_attributes_def seq_def)

text \<open>
  C8, amended: with no attribute requested, extraction yields exactly one row, made of the
  three fixed columns, for every span of the tree whose attributes map is present and not
  empty, in pre-order, and no row for the other spans; so it yields one row per span when
  every span of the tree has a non-empty attributes map. The tree is the one returned by
  \<^verbatim>\<open>get_span_tree\<close>, which has applied \<^verbatim>\<open>max_depth\<close>.
\<close>

theorem rows_without_requested_attributes:
  "extract_spans py_str trace [] t =
     Inr (map (base_row trace)
            (filter (\<lambda>span. attributes span \<noteq> None \<and> attributes span \<noteq> Some [])
               (preorder t))) \<and>
   ((\<forall>span\<in>set (preorder t). attributes span \<noteq> None \<and> attributes span \<noteq> Some []) \<longrightarrow>
      (\<exists>rows. extract_spans py_str trace [] t = Inr rows \<and> length rows = length (preorder t)))"
proof -
  have e: "extract_spans py_str trace [] t =
     Inr (map (base_row trace)
            (filter (\<lambda>span. attributes span \<noteq> None \<and> attributes span \<noteq> Some [])
               (preorder t)))"
    by (simp add: extract_spans_preorder_aux(1) own_rows_no_attributes concat_map_filter)
  show ?thesis
    by (simp add: e filter_id_conv)
qed

theorem rows_without_requested_attributes_witness:
  "length (preorder sample_tree) = 2 \<and>
   extract_spans (\<lambda>v. v) sample_trace [] sample_tree =
     Inr [[(''trace_id'', ''s1''), (''span_id'', ''s1''), (''step_name'', ''root'')],
          [(''trace_id'', ''s1''), (''span_id'', ''s2''), (''step_name'', ''child'')]]"
proof -
  have h: "\<forall>span\<in>set (preorder sample_tree). attributes span \<noteq> None \<and> attributes span \<noteq> Some []"
    by (simp add: sample_tree_def sample_child_def)
  show ?thesis
    using h rows_without_requested_attributes [of "\<lambda>v. v" sample_trace sample_tree]
    by (simp add: sample_tree_def sample_child_def sample_trace_def base_row_def)
qed

text \<open>
  C9: the rows are those of the spans that pass the test, listed in pre-order, so the row
  of a span comes before the rows of its descendants. A span of the tree that does not have
  all requested attributes with non-null values adds no row, and each of its descendants
  that has them adds its row, which is in the result.
\<close>

theorem rows_in_preorder:
  "extract_spans py_str trace attributes_to_return t =
     Inr (concat (map (own_rows py_str trace attributes_to_return) (preorder t))) \<and>
   (\<forall>s\<in>set (preorder t). \<not> all_attributes_present s attributes_to_return \<longrightarrow>
      own_rows py_str trace attributes_to_return s = [] \<and>
      (\<forall>d\<in>set (preorder s). all_attributes_present d attributes_to_return \<longrightarrow>
         own_rows py_str trace attributes_to_return d =
           [span_row py_str trace attributes_to_return d] \<and>
         (\<exists>rows. extract_spans py_str trace attributes_to_return t = Inr rows \<and>
                 span_row py_str trace attributes_to_return d \<in> set rows)))"
proof (intro conjI ballI impI)
  show e: "extract_spans py_str trace attributes_to_return t =
     Inr (concat (map (own_rows py_str trace attributes_to_return) (preorder t)))"
    by (rule extract_spans_preorder_aux(1))
  fix s
  assume s: "s \<in> set (preorder t)" and f: "\<not> all_attributes_present s attributes_to_return"
  from f show "own_rows py_str trace attributes_to_return s = []"
    using has_attributes_all_present[of s attributes_to_return] by (auto simp: own_rows_def)
  from f have ne: "attributes_to_return \<noteq> []"
    by (auto simp: all_attributes_present_def)
  fix d
  assume d: "d \<in> set (preorder s)" and p: "all_attributes_present d attributes_to_return"
  show o: "own_rows py_str trace attributes_to_return d =
           [span_row py_str trace attributes_to_return d]"
    using all_present_has_attributes[OF p ne] by (simp add: own_rows_def)
  have dt: "d \<in> set (preorder t)" using preorder_trans[OF s d] .
  have "span_row py_str trace attributes_to_return d \<in>
          set (own_rows py_str trace attributes_to_return d)"
    by (simp add: o)
  with dt have "span_row py_str trace attributes_to_return d \<in>
               set (concat (map (own_rows py_str trace attributes_to_return) (preorder t)))"
    by auto
  then show "\<exists>rows. extract_spans py_str trace attributes_to_return t = Inr rows \<and>
                 span_row py_str trace attributes_to_return d \<in> set rows"
    using e by simp
qed

theorem rows_in_preorder_witness:
  "sample_tree \<in> set (preorder sample_tree) \<and>
   \<not> all_attributes_present sample_tree [''input''] \<and>
   sample_child \<in> set (preorder sample_tree) \<and>
   all_attributes_present sample_child [''input''] \<and>
   extract_spans (\<lambda>v. v) sample_trace [''input''] sample_tree =
     Inr [[(''trace_id'', ''s1''), (''span_id'', ''s2''), (''step_name'', ''child''),
           (''input'', ''i'')]]"
proof -
  have h1: "sample_tree \<in> set (preorder sample_tree)"
    by (rule preorder_self)
  have h2: "\<not> all_attributes_present sample_tree [''input'']"
    by (simp add: all_attributes_present_def sample_tree_def)
  have h3: "sample_child \<in> set (preorder sample_tree)"
    by (simp add: sample_tree_def sample_child_def)
  have h4: "all_attributes_present sample_child [''input'']"
    by (simp add: all_attributes_present_def sample_child_def)
  show ?thesis
    using h1 h2 h3 h4
      rows_in_preorder [of "\<lambda>v. v" sample_trace "[''input'']" sample_tree]
    by (simp add: sample_tree_def sample_child_def sample_trace_def own_rows_def
        has_attributes_def span_row_def base_row_def)
qed

lemma query_spans_per_trace:
  "\<exists>rowss. query_spans py_str query_traces get_span_tree attribute_filters
              attributes_to_return max_depth = Inr (concat rowss) \<and>
     list_all2
       (\<lambda>trace rows.
          extract_spans py_str trace attributes_to_return
            (get_span_tree (root_span_id trace) attributes_to_return max_depth) = Inr rows \<and>
          (''trace_id'' \<notin> set attributes_to_return \<longrightarrow>
             (\<forall>row\<in>set rows.
                map_of row ''trace_id'' = Some (root_span_id trace) \<and>
                ((map_of row ''trace_id'' = Some (trace_trace_id trace)) =
                 (root_span_id trace = trace_trace_id trace)))))
       (query_traces attribute_filters) rowss"
proof -
  let ?rows = "\<lambda>trace. concat (map (own_rows py_str trace attributes_to_return)
                 (preorder (get_span_tree (root_span_id trace) attributes_to_return max_depth)))"
  have q: "query_spans py_str query_traces get_span_tree attribute_filters
              attributes_to_return max_depth =
           Inr (concat (map ?rows (query_traces attribute_filters)))"
    by (simp add: query_spans_def query_spans_loop_rows)
  have p: "\<And>trace. ''trace_id'' \<notin> set attributes_to_return \<longrightarrow>
             (\<forall>row\<in>set (?rows trace).
                map_of row ''trace_id'' = Some (root_span_id trace) \<and>
                ((map_of row ''trace_id'' = Some (trace_trace_id trace)) =
                 (root_span_id trace = trace_trace_id trace)))"
  proof
    fix trace
    assume n: "''trace_id'' \<notin> set attributes_to_return"
    have "\<forall>row\<in>set (?rows trace). map_of row ''trace_id'' = Some (root_span_id trace)"
      using own_rows_trace_id[OF n] by auto
    then show "\<forall>row\<in>set (?rows trace).
                map_of row ''trace_id'' = Some (root_span_id trace) \<and>
                ((map_of row ''trace_id'' = Some (trace_trace_id trace)) =
                 (root_span_id trace = trace_trace_id trace))"
      by auto
  qed
  have l: "list_all2
       (\<lambda>trace rows.
          extract_spans py_str trace attributes_to_return
            (get_span_tree (root_span_id trace) attributes_to_return max_depth) = Inr rows \<and>
          (''trace_id'' \<notin> set attributes_to_return \<longrightarrow>
             (\<forall>row\<in>set rows.
                map_of row ''trace_id'' = Some (root_span_id trace) \<and>
                ((map_of row ''trace_id'' = Some (trace_trace_id trace)) =
                 (root_span_id trace = trace_trace_id trace)))))
       (query_traces attribute_filters) (map ?rows (query_traces attribute_filters))"
    unfolding list_all2_map2 list_all2_same
    using p by (simp add: extract_spans_preorder_aux(1))
  show ?thesis using q l by blast
qed

text \<open>
  C10, as stated, fails when \<^verbatim>\<open>trace_id\<close> is itself a requested attribute: the loop over
  the requested attributes then overwrites the column with the span's attribute.
\<close>

theorem requested_trace_id_overwrites:
  "extract_spans (\<lambda>v. v) sample_trace [''trace_id'']
     (SpanWithChildren ''s1'' ''t1'' None ''root'' (Some [(''trace_id'', Some ''X'')]) []) =
   Inr [[(''trace_id'', ''X''), (''span_id'', ''s1''), (''step_name'', ''root'')]] \<and>
   root_span_id sample_trace = ''s1''"
  by (simp add: has_attributes_def seq_def sample_trace_def)

text \<open>
  C10, amended: unless \<^verbatim>\<open>trace_id\<close> is among the requested attributes, the
  \<^verbatim>\<open>trace_id\<close> column of every row holds the \<^verbatim>\<open>root_span_id\<close> of the trace whose tree
  was traversed, and so equals that trace's \<^verbatim>\<open>trace_id\<close> exactly when the two ids
  coincide. The result of \<^verbatim>\<open>query_spans\<close> is, trace by trace in the order of the traces
  found, the rows extracted from the tree fetched for that trace's root span, and each of
  these rows carries the \<^verbatim>\<open>root_span_id\<close> of that very trace. When \<^verbatim>\<open>trace_id\<close> is
  requested, the column holds the stringified attribute of the span instead.
\<close>

theorem row_trace_id_is_root_span_id:
  "(''trace_id'' \<notin> set attributes_to_return \<longrightarrow>
      (\<exists>rows. extract_spans py_str trace attributes_to_return t = Inr rows \<and>
         (\<forall>row\<in>set rows.
            map_of row ''trace_id'' = Some (root_span_id trace) \<and>
            ((map_of row ''trace_id'' = Some (trace_trace_id trace)) =
             (root_span_id trace = trace_trace_id trace))))) \<and>
   (\<exists>rowss. query_spans py_str query_traces get_span_tree attribute_filters
              attributes_to_return max_depth = Inr (concat rowss) \<and>
      list_all2
        (\<lambda>trace rows.
           extract_spans py_str trace attributes_to_return
             (get_span_tree (root_span_id trace) attributes_to_return max_depth) = Inr rows \<and>
           (''trace_id'' \<notin> set attributes_to_return \<longrightarrow>
              (\<forall>row\<in>set rows.
                 map_of row ''trace_id'' = Some (root_span_id trace) \<and>
                 ((map_of row ''trace_id'' = Some (trace_trace_id trace)) =
                  (root_span_id trace = trace_trace_id trace)))))
        (query_traces attribute_filters) rowss) \<and>
   (''trace_id'' \<notin> set attributes_to_return \<longrightarrow>
      (\<exists>rows. query_spans py_str query_traces get_span_tree attribute_filters
                 attributes_to_return max_depth = Inr rows \<and>
         (\<forall>row\<in>set rows. \<exists>trace\<in>set (query_traces attribute_filters).
            map_of row ''trace_id'' = Some (root_span_id trace)))) \<and>
   (''trace_id'' \<in> set attributes_to_return \<and> has_attributes span attributes_to_return \<and>
    attributes span = Some d \<longrightarrow>
      map_of (span_row py_str trace attributes_to_return span) ''trace_id'' =
        Some (attribute_str py_str d ''trace_id''))"
proof (intro conjI impI)
  assume n: "''trace_id'' \<notin> set attributes_to_return"
  have "\<forall>row\<in>set (concat (map (own_rows py_str trace attributes_to_return) (preorder t))).
          map_of row ''trace_id'' = Some (root_span_id trace)"
    using own_rows_trace_id[OF n] by auto
  then show "\<exists>rows. extract_spans py_str trace attributes_to_return t = Inr rows \<and>
         (\<forall>row\<in>set rows.
            map_of row ''trace_id'' = Some (root_span_id trace) \<and>
            ((map_of row ''trace_id'' = Some (trace_trace_id trace)) =
             (root_span_id trace = trace_trace_id trace)))"
    by (auto simp: extract_spans_preorder_aux(1))
next
  show "\<exists>rowss. query_spans py_str query_traces get_span_tree attribute_filters
              attributes_to_return max_depth = Inr (concat rowss) \<and>
      list_all2
        (\<lambda>trace rows.
           extract_spans py_str trace attributes_to_return
             (get_span_tree (root_span_id trace) attributes_to_return max_depth) = Inr rows \<and>
           (''trace_id'' \<notin> set attributes_to_return \<longrightarrow>
              (\<forall>row\<in>set rows.
                 map_of row ''trace_id'' = Some (root_span_id trace) \<and>
                 ((map_of row ''trace_id'' = Some (trace_trace_id trace)) =
                  (root_span_id trace = trace_trace_id trace)))))
        (query_traces attribute_filters) rowss"
    by (rule query_spans_per_trace)
next
  assume n: "''trace_id'' \<notin> set attributes_to_return"
  show "\<exists>rows. query_spans py_str query_traces get_span_tree attribute_filters
                 attributes_to_return max_depth = Inr rows \<and>
         (\<forall>row\<in>set rows. \<exists>trace\<in>set (query_traces attribute_filters).
            map_of row ''trace_id'' = Some (root_span_id trace))"
    using own_rows_trace_id[OF n]
    by (fastforce simp: query_spans_def query_spans_loop_rows)
next
  assume "''trace_id'' \<in> set attributes_to_return \<and> has_attributes span attributes_to_return \<and>
    attributes span = Some d"
  then show "map_of (span_row py_str trace attributes_to_return span) ''trace_id'' =
        Some (attribute_str py_str d ''trace_id'')"
    using span_row_trace_id_requested by blast
qed

theorem row_trace_id_is_root_span_id_witness:
  "query_spans (\<lambda>v. v) (\<lambda>filters. [sample_trace, sample_trace2]) sample_get_span_tree
     () [''input''] None =
     Inr [[(''trace_id'', ''s1''), (''span_id'', ''s2''), (''step_name'', ''child''),
           (''input'', ''i'')],
          [(''trace_id'', ''r2''), (''span_id'', ''r2''), (''step_name'', ''other''),
           (''input'', ''j'')]] \<and>
   extract_spans (\<lambda>v. v) sample_trace [''input''] sample_tree =
     Inr [[(''trace_id'', ''s1''), (''span_id'', ''s2''), (''step_name'', ''child''),
           (''input'', ''i'')]] \<and>
   root_span_id sample_trace = ''s1'' \<and> trace_trace_id sample_trace = ''t1'' \<and>
   root_span_id sample_trace2 = ''r2'' \<and> trace_trace_id sample_trace2 = ''t2'' \<and>
   has_attributes
     (SpanWithChildren ''s1'' ''t1'' None ''root'' (Some [(''trace_id'', Some ''X'')]) [])
     [''trace_id''] \<and>
   map_of (span_row (\<lambda>v. v) sample_trace [''trace_id'']
             (SpanWithChildren ''s1'' ''t1'' None ''root'' (Some [(''trace_id'', Some ''X'')]) []))
     ''trace_id'' = Some ''X''"
proof -
  let ?span = "SpanWithChildren ''s1'' ''t1'' None ''root'' (Some [(''trace_id'', Some ''X'')]) []"
  let ?row1 = "[(''trace_id'', ''s1''), (''span_id'', ''s2''), (''step_name'', ''child''),
                (''input'', ''i'')]"
  let ?row2 = "[(''trace_id'', ''r2''), (''span_id'', ''r2''), (''step_name'', ''other''),
                (''input'', ''j'')]"
  have h1: "''trace_id'' \<notin> set [''input'']"
    by simp
  have h2: "''trace_id'' \<in> set [''trace_id'']"
    by simp
  have h3: "has_attributes ?span [''trace_id'']"
    by (simp add: has_attributes_def)
  have e1: "extract_spans (\<lambda>v. v) sample_trace [''input''] sample_tree = Inr [?row1]"
    by (simp add: sample_tree_def sample_child_def sample_trace_def has_attributes_def seq_def)
  have e2: "extract_spans (\<lambda>v. v) sample_trace2 [''input''] sample_tree2 = Inr [?row2]"
    by (simp add: sample_tree2_def sample_trace2_def has_attributes_def seq_def)
  have g1: "sample_get_span_tree (root_span_id sample_trace) [''input''] None = sample_tree"
    and g2: "sample_get_span_tree (root_span_id sample_trace2) [''input''] None = sample_tree2"
    by (simp_all add: sample_get_span_tree_def sample_trace_def sample_trace2_def)
  have a: "\<exists>rows. extract_spans (\<lambda>v. v) sample_trace [''input''] sample_tree = Inr rows \<and>
      (\<forall>row\<in>set rows. map_of row ''trace_id'' = Some ''s1'' \<and>
                        map_of row ''trace_id'' \<noteq> Some (trace_trace_id sample_trace))"
    using h1
      row_trace_id_is_root_span_id [of "[''input'']" "\<lambda>v. v" sample_trace sample_tree
        "\<lambda>filters. [sample_trace, sample_trace2]" sample_get_span_tree "()" None]
    by (simp add: sample_trace_def)
  have "\<exists>rowss. query_spans (\<lambda>v. v) (\<lambda>filters. [sample_trace, sample_trace2])
                  sample_get_span_tree () [''input''] None = Inr (concat rowss) \<and>
          list_all2
            (\<lambda>trace rows.
               extract_spans (\<lambda>v. v) trace [''input'']
                 (sample_get_span_tree (root_span_id trace) [''input''] None) = Inr rows)
            [sample_trace, sample_trace2] rowss"
    using
      row_trace_id_is_root_span_id [of "[''input'']" "\<lambda>v. v" sample_trace sample_tree
        "\<lambda>filters. [sample_trace, sample_trace2]" sample_get_span_tree "()" None]
    by (auto elim: list_all2_mono)
  then have q: "query_spans (\<lambda>v. v) (\<lambda>filters. [sample_trace, sample_trace2])
                  sample_get_span_tree () [''input''] None = Inr [?row1, ?row2]"
    unfolding g1 g2 by (auto simp: list_all2_Cons1 g1 g2 e1 e2)
  have b: "map_of (span_row (\<lambda>v. v) sample_trace [''trace_id''] ?span) ''trace_id'' = Some ''X''"
    using h2 h3
      row_trace_id_is_root_span_id [of "[''trace_id'']" "\<lambda>v. v" sample_trace sample_tree
        "\<lambda>filters. [sample_trace]" "\<lambda>span_id attrs max_depth. sample_tree" "()" None
        ?span "[(''trace_id'', Some ''X'')]"]
    by (simp add: attribute_str_def)
  show ?thesis
    using h3 e1 q a b by (simp add: sample_trace_def sample_trace2_def)
qed

end
